theory Spec2Isabelle
  imports Main "HOL-Library.Product_Lexorder" "HOL-Library.Multiset"
begin

section \<open>Explore screen: relative time windows (pages/Explore.tsx, buildTimeRange)\<close>

text \<open>
  A JavaScript \<open>Date\<close> holds a time value: the milliseconds since the epoch, UTC.
  The local-time methods (\<open>setHours\<close>, \<open>getDay\<close>, \<open>getDate\<close>, \<open>setDate\<close>) read and
  write it through the time zone of the device. The definitions follow the abstract
  operations of the language standard: Day, TimeWithinDay, WeekDay, LocalTime, UTC,
  MakeTime, MakeDay, MakeDate. The range check of a time value (TimeClip) is left out:
  the windows lie within days of the current time.

  A time zone is the standard's \<open>LocalTZA(t, isUTC)\<close>: with \<open>isUTC\<close> true, the offset in
  force at the instant \<open>t\<close>; with \<open>isUTC\<close> false, the offset by which the local time value
  \<open>t\<close> is read (a local time that a transition skips or repeats is read with the offset
  before the transition).
\<close>

type_synonym Date = int

type_synonym zone = "int \<Rightarrow> bool \<Rightarrow> int"

definition msPerDay :: int where
  "msPerDay = 86400000"

definition Day :: "int \<Rightarrow> int" where
  "Day t = t div msPerDay"

definition TimeWithinDay :: "int \<Rightarrow> int" where
  "TimeWithinDay t = t mod msPerDay"

definition WeekDay :: "int \<Rightarrow> int" where
  "WeekDay t = (Day t + 4) mod 7"

definition LocalTime :: "zone \<Rightarrow> Date \<Rightarrow> int" where
  "LocalTime tz t = t + tz t True"

definition UTC :: "zone \<Rightarrow> int \<Rightarrow> Date" where
  "UTC tz t = t - tz t False"

definition MakeTime :: "int \<Rightarrow> int \<Rightarrow> int \<Rightarrow> int \<Rightarrow> int" where
  "MakeTime h m s ms = h * 3600000 + m * 60000 + s * 1000 + ms"

definition MakeDate :: "int \<Rightarrow> int \<Rightarrow> int" where
  "MakeDate day time = day * msPerDay + time"

text \<open>
  The day of the month of a day number, in the proleptic Gregorian calendar: the civil
  date is recovered from the day count by eras of 400 years (146097 days), with the year
  starting in March.
\<close>

definition DateOfDay :: "int \<Rightarrow> int" where
  "DateOfDay d =
     (let z = d + 719468;
          era = z div 146097;
          doe = z - era * 146097;
          yoe = (doe - doe div 1460 + doe div 36524 - doe div 146096) div 365;
          doy = doe - (365 * yoe + yoe div 4 - yoe div 100);
          mp = (5 * doy + 2) div 153
      in doy - (153 * mp + 2) div 5 + 1)"

definition DateFromTime :: "int \<Rightarrow> int" where
  "DateFromTime t = DateOfDay (Day t)"

text \<open>
  \<open>MakeDay (YearFromTime t) (MonthFromTime t) dt\<close>: the day number of the first of the
  month that holds \<open>t\<close>, plus \<open>dt - 1\<close>. A \<open>dt\<close> past the end of the month runs on into
  the next one, as in the language.
\<close>

definition MakeDayInMonthOf :: "int \<Rightarrow> int \<Rightarrow> int" where
  "MakeDayInMonthOf t dt = (Day t - (DateFromTime t - 1)) + dt - 1"

definition getDay :: "zone \<Rightarrow> Date \<Rightarrow> int" where
  "getDay tz d = WeekDay (LocalTime tz d)"

definition getDate :: "zone \<Rightarrow> Date \<Rightarrow> int" where
  "getDate tz d = DateFromTime (LocalTime tz d)"

definition setDate :: "zone \<Rightarrow> Date \<Rightarrow> int \<Rightarrow> Date" where
  "setDate tz d dt =
     (let t = LocalTime tz d
      in UTC tz (MakeDate (MakeDayInMonthOf t dt) (TimeWithinDay t)))"

definition setHours :: "zone \<Rightarrow> Date \<Rightarrow> int \<Rightarrow> int \<Rightarrow> int \<Rightarrow> int \<Rightarrow> Date" where
  "setHours tz d h m s ms =
     (let t = LocalTime tz d
      in UTC tz (MakeDate (Day t) (MakeTime h m s ms)))"

text \<open>The filter keys, \<open>FILTERS\<close> of the code; the key \<open>all\<close> is \<open>All_key\<close> here.\<close>

datatype FilterKey =
  All_key | Today | Tomorrow | ThisWeek | NextWeek
  | Sports | Tech | Cultural | Workshops | Hackathons

text \<open>
  The window is a pair of instants; \<open>toISOString\<close> renders each as text in UTC and is not
  modelled, the record holds the time values themselves.
\<close>

record TimeRange =
  range_start :: Date
  range_end :: Date

definition buildTimeRange :: "zone \<Rightarrow> Date \<Rightarrow> FilterKey \<Rightarrow> TimeRange option" where
  "buildTimeRange tz now filt =
     (if filt = Today then
        (let s = setHours tz now 0 0 0 0;
             e = setHours tz now 23 59 59 999
         in Some \<lparr>range_start = s, range_end = e\<rparr>)
      else if filt = Tomorrow then
        (let s = setDate tz now (getDate tz now + 1);
             s = setHours tz s 0 0 0 0;
             e = setHours tz s 23 59 59 999
         in Some \<lparr>range_start = s, range_end = e\<rparr>)
      else if filt = ThisWeek then
        (let s = setHours tz now 0 0 0 0;
             daysUntilSunday = 7 - getDay tz now;
             e = setDate tz now (getDate tz now + daysUntilSunday);
             e = setHours tz e 23 59 59 999
         in Some \<lparr>range_start = s, range_end = e\<rparr>)
      else if filt = NextWeek then
        (let m = (8 - getDay tz now) mod 7;
             daysUntilNextMonday = (if m = 0 then 7 else m);
             s = setDate tz now (getDate tz now + daysUntilNextMonday);
             s = setHours tz s 0 0 0 0;
             e = setDate tz s (getDate tz s + 6);
             e = setHours tz e 23 59 59 999
         in Some \<lparr>range_start = s, range_end = e\<rparr>)
      else None)"

text \<open>
  The calendar vocabulary of the specification: the local day number of an instant, the
  instants that the zone gives for the local times 00:00:00.000 and 23:59:59.999 of day
  \<open>n\<close>, the weekday of a day number (0 is Sunday), and the number of days to the next
  Monday.
\<close>

definition localDay :: "zone \<Rightarrow> Date \<Rightarrow> int" where
  "localDay tz t = Day (LocalTime tz t)"




definition daysUntilNextMonday :: "int \<Rightarrow> int" where
  "daysUntilNextMonday wd = (if (8 - wd) mod 7 = 0 then 7 else (8 - wd) mod 7)"

section \<open>Strings\<close>

text \<open>
  A string of the language is a sequence of UTF-16 code units. The search text, which the
  code trims, is kept as the list of its code units (\<open>jsstring\<close>); \<open>units\<close> gives the code
  units of a text written in the code in ASCII. \<open>trim\<close> removes from both ends the code
  units that the language counts as white space or as a line terminator: tab, line feed,
  vertical tab, form feed, carriage return, space, no-break space, the Unicode space
  separators (U+1680, U+2000 to U+200A, U+202F, U+205F, U+3000), the line and paragraph
  separators U+2028 and U+2029, and U+FEFF. Text that the code only passes on stays a
  \<open>string\<close>.
\<close>

type_synonym jsstring = "nat list"

definition units :: "string \<Rightarrow> jsstring" where
  "units s = map of_char s"

definition is_ws :: "nat \<Rightarrow> bool" where
  "is_ws c =
     ((9 \<le> c \<and> c \<le> 13) \<or> c = 32 \<or> c = 160 \<or> c = 5760 \<or> (8192 \<le> c \<and> c \<le> 8202)
      \<or> c = 8232 \<or> c = 8233 \<or> c = 8239 \<or> c = 8287 \<or> c = 12288 \<or> c = 65279)"

definition trim :: "jsstring \<Rightarrow> jsstring" where
  "trim s = rev (dropWhile is_ws (rev (dropWhile is_ws s)))"

section \<open>Explore screen: rows, filter state and the composed query\<close>

text \<open>
  A tag of a raw row is a string (its code units) or, defensively, any other value; the
  other value is held by the text \<open>String(t)\<close> gives for it. \<open>toLowerCase\<close> of the language follows the Unicode
  case mappings; it is a parameter of every definition that lowers a tag.
\<close>

datatype tag = Str jsstring | NonStr jsstring

fun tag_text :: "tag \<Rightarrow> jsstring" where
  "tag_text (Str s) = s"
| "tag_text (NonStr s) = s"

text \<open>
  \<open>EventRow\<close> of pages/Explore.tsx. An optional or nullable field is an \<open>option\<close>; a
  timestamp column holds the instant its text denotes. The query selects every column, so
  a row may carry more fields than the interface names: they are the record's extension.
\<close>

record EventRow =
  er_id :: string
  er_title :: string
  er_description :: "string option"
  er_start_time :: "Date option"
  er_end_time :: "Date option"
  er_location :: "string option"
  er_tags :: "tag list option"
  er_status :: "string option"
  er_created_at :: "Date option"

record FilterState =
  searchText :: jsstring
  activeFilter :: FilterKey

fun key_name :: "FilterKey \<Rightarrow> string" where
  "key_name All_key = ''all''"
| "key_name Today = ''today''"
| "key_name Tomorrow = ''tomorrow''"
| "key_name ThisWeek = ''thisWeek''"
| "key_name NextWeek = ''nextWeek''"
| "key_name Sports = ''sports''"
| "key_name Tech = ''tech''"
| "key_name Cultural = ''cultural''"
| "key_name Workshops = ''workshops''"
| "key_name Hackathons = ''hackathons''"

text \<open>
  A query is the chain of calls made on the backend client's builder, in the order the
  code makes them. A timestamp argument is the instant whose ISO text the code passes; the
  text of an \<open>Or\<close> filter holds the search text, so it is a list of code units.
\<close>

datatype call =
  From string
  | Select string
  | In string "string list"
  | Eq string string
  | Gte string Date
  | Lte string Date
  | Contains string "string list"
  | Or jsstring
  | Order string bool
  | Limit nat

definition fetchEvents_query :: "zone \<Rightarrow> Date \<Rightarrow> FilterState \<Rightarrow> call list" where
  "fetchEvents_query tz now fs =
     (let query = [From ''event_submissions'', Select ''*''];
          query = query @ [In ''status'' [''approved'', ''pending'']];
          query = (case buildTimeRange tz now (activeFilter fs) of
                     Some timeRange \<Rightarrow>
                       query @ [Gte ''start_time'' (range_start timeRange),
                                Lte ''start_time'' (range_end timeRange)]
                   | None \<Rightarrow> query @ [Gte ''start_time'' now]);
          query = (if key_name (activeFilter fs) \<in>
                        set [''sports'', ''tech'', ''cultural'', ''workshops'', ''hackathons'']
                   then query @ [Contains ''tags'' [key_name (activeFilter fs)]]
                   else query);
          search = trim (searchText fs);
          query = (if search \<noteq> []
                   then (let q = units ''%'' @ search @ units ''%''
                         in query @ [Or (units ''title.ilike.'' @ q @ units '',location.ilike.'' @ q)])
                   else query)
      in query @ [Order ''start_time'' True])"


section \<open>Explore screen: the fetch (pages/Explore.tsx, fetchEvents)\<close>

text \<open>
  The per-row normalisation of the fetched rows: the row is copied with its \<open>tags\<close>
  replaced; a null or missing tag list counts as the empty one, a string tag is lowered,
  any other tag value becomes its text.
\<close>

fun normalizeTag :: "(jsstring \<Rightarrow> jsstring) \<Rightarrow> tag \<Rightarrow> tag" where
  "normalizeTag toLowerCase (Str t) = Str (toLowerCase t)"
| "normalizeTag toLowerCase (NonStr t) = Str t"

definition normalizeRow ::
  "(jsstring \<Rightarrow> jsstring) \<Rightarrow> 'a EventRow_scheme \<Rightarrow> 'a EventRow_scheme" where
  "normalizeRow toLowerCase r =
     r\<lparr>er_tags :=
         Some (map (normalizeTag toLowerCase) (case er_tags r of None \<Rightarrow> [] | Some ts \<Rightarrow> ts))\<rparr>"

text \<open>
  The first-tag read of the rendered list, \<open>event.tags?.[0] ?? undefined\<close>: the outcome
  tells which path the read takes.
\<close>

datatype first_tag = NullTagList | NoFirstTag | FirstTag tag

definition firstTag :: "'a EventRow_scheme \<Rightarrow> first_tag" where
  "firstTag event =
     (case er_tags event of
        None \<Rightarrow> NullTagList
      | Some [] \<Rightarrow> NoFirstTag
      | Some (t # ts) \<Rightarrow> FirstTag t)"

text \<open>
  What awaiting a query gives: the promise resolves to \<open>{data, error}\<close>, either of which
  may be null, or it rejects and the \<open>await\<close> throws.
\<close>

datatype 'r response = Resolved "'r list option" "string option" | Rejected string

text \<open>A statement completes normally or throws; both carry the state reached.\<close>

datatype 's completion = Return 's | Throw string 's

text \<open>
  The component state the fetch writes, with the trace of what it did: the state setters
  called, the query awaited, the console lines written.
\<close>

datatype 'r effect =
  SetLoading bool
  | SetEvents "'r list"
  | Await "call list"
  | ConsoleWarn
  | ConsoleError

record 'r ExploreState =
  events :: "'r list"
  loading :: bool
  trace :: "'r effect list"

definition setLoading :: "bool \<Rightarrow> 'r ExploreState \<Rightarrow> 'r ExploreState" where
  "setLoading b st = st\<lparr>loading := b, trace := trace st @ [SetLoading b]\<rparr>"

definition setEvents :: "'r list \<Rightarrow> 'r ExploreState \<Rightarrow> 'r ExploreState" where
  "setEvents rows st = st\<lparr>events := rows, trace := trace st @ [SetEvents rows]\<rparr>"

definition console :: "'r effect \<Rightarrow> 'r ExploreState \<Rightarrow> 'r ExploreState" where
  "console line st = st\<lparr>trace := trace st @ [line]\<rparr>"

record Opts =
  bypassLoading :: "bool option"

text \<open>\<open>opts?.bypassLoading\<close> as a condition: a missing \<open>opts\<close> or field is falsy.\<close>

definition bypass :: "Opts option \<Rightarrow> bool" where
  "bypass opts =
     (case opts of
        None \<Rightarrow> False
      | Some o1 \<Rightarrow> (case bypassLoading o1 of None \<Rightarrow> False | Some b \<Rightarrow> b))"

text \<open>The body of the \<open>try\<close> block, given what the awaited query yields.\<close>

definition fetchEvents_try ::
  "(jsstring \<Rightarrow> jsstring) \<Rightarrow> zone \<Rightarrow> Date \<Rightarrow> FilterState \<Rightarrow> 'a EventRow_scheme response \<Rightarrow>
   'a EventRow_scheme ExploreState \<Rightarrow> 'a EventRow_scheme ExploreState completion" where
  "fetchEvents_try toLowerCase tz now fs resp st =
     (let query = fetchEvents_query tz now fs;
          st = console (Await query) st
      in case resp of
           Rejected e \<Rightarrow> Throw e st
         | Resolved data error \<Rightarrow>
             (case error of
                Some err \<Rightarrow> Return (setEvents [] (console ConsoleWarn st))
              | None \<Rightarrow>
                  (let rows = (case data of None \<Rightarrow> [] | Some d \<Rightarrow> d)
                   in Return (setEvents (map (normalizeRow toLowerCase) rows) st))))"

definition fetchEvents ::
  "(jsstring \<Rightarrow> jsstring) \<Rightarrow> zone \<Rightarrow> Date \<Rightarrow> FilterState \<Rightarrow> Opts option \<Rightarrow> 'a EventRow_scheme response \<Rightarrow>
   'a EventRow_scheme ExploreState \<Rightarrow> 'a EventRow_scheme ExploreState completion" where
  "fetchEvents toLowerCase tz now fs opts resp st =
     (let st = (if \<not> bypass opts then setLoading True st else st);
          caught = (case fetchEvents_try toLowerCase tz now fs resp st of
                      Return s \<Rightarrow> Return s
                    | Throw e s \<Rightarrow> Return (setEvents [] (console ConsoleError s)))
      in case caught of
           Return s \<Rightarrow> Return (if \<not> bypass opts then setLoading False s else s)
         | Throw e s \<Rightarrow> Throw e (if \<not> bypass opts then setLoading False s else s))"

text \<open>
  The handler of the realtime subscription on \<open>event_submissions\<close>: whatever the change,
  it calls \<open>fetchEvents({ bypassLoading: true })\<close>.
\<close>

definition on_postgres_changes ::
  "(jsstring \<Rightarrow> jsstring) \<Rightarrow> zone \<Rightarrow> Date \<Rightarrow> FilterState \<Rightarrow> 'a EventRow_scheme response \<Rightarrow>
   'a EventRow_scheme ExploreState \<Rightarrow> 'a EventRow_scheme ExploreState completion" where
  "on_postgres_changes toLowerCase tz now fs resp st =
     fetchEvents toLowerCase tz now fs (Some \<lparr>bypassLoading = Some True\<rparr>) resp st"

section \<open>The backend's reading of a query\<close>

text \<open>
  The backend is reached through its client only. Its reading of a call chain is the
  documented meaning of the operators: a row is kept when it passes every filter call (a
  null column passes no comparison), the kept rows are ordered by the \<open>Order\<close> calls (the
  first call is the major key; ascending puts nulls last, descending first), and a
  \<open>Limit\<close> keeps the first rows. A table is read through its columns by name; the reading
  of an \<open>Or\<close> filter text is a parameter.
\<close>

record 'r columns =
  text_col :: "string \<Rightarrow> 'r \<Rightarrow> string option"
  time_col :: "string \<Rightarrow> 'r \<Rightarrow> Date option"
  array_col :: "string \<Rightarrow> 'r \<Rightarrow> jsstring list option"

fun passes :: "'r columns \<Rightarrow> (jsstring \<Rightarrow> 'r \<Rightarrow> bool) \<Rightarrow> call \<Rightarrow> 'r \<Rightarrow> bool" where
  "passes C orf (In c vs) r = (case text_col C c r of None \<Rightarrow> False | Some v \<Rightarrow> v \<in> set vs)"
| "passes C orf (Eq c v) r = (text_col C c r = Some v)"
| "passes C orf (Gte c t) r = (case time_col C c r of None \<Rightarrow> False | Some v \<Rightarrow> t \<le> v)"
| "passes C orf (Lte c t) r = (case time_col C c r of None \<Rightarrow> False | Some v \<Rightarrow> v \<le> t)"
| "passes C orf (Contains c vs) r =
     (case array_col C c r of None \<Rightarrow> False | Some a \<Rightarrow> list_all (\<lambda>v. units v \<in> set a) vs)"
| "passes C orf (Or f) r = orf f r"
| "passes C orf other r = True"

definition order_key :: "'r columns \<Rightarrow> string \<Rightarrow> bool \<Rightarrow> 'r \<Rightarrow> int \<times> int" where
  "order_key C c ascending r =
     (case time_col C c r of
        None \<Rightarrow> (if ascending then (1, 0) else (0, 0))
      | Some t \<Rightarrow> (if ascending then (0, t) else (1, - t)))"

fun order_rows :: "'r columns \<Rightarrow> call \<Rightarrow> 'r list \<Rightarrow> 'r list" where
  "order_rows C (Order c ascending) rs = sort_key (order_key C c ascending) rs"
| "order_rows C other rs = rs"

fun limit_rows :: "call list \<Rightarrow> 'r list \<Rightarrow> 'r list" where
  "limit_rows [] rs = rs"
| "limit_rows (Limit n # q) rs = take n rs"
| "limit_rows (other # q) rs = limit_rows q rs"

definition run_query ::
  "'r columns \<Rightarrow> (jsstring \<Rightarrow> 'r \<Rightarrow> bool) \<Rightarrow> call list \<Rightarrow> 'r list \<Rightarrow> 'r list" where
  "run_query C orf q table =
     limit_rows q (foldr (order_rows C) q (filter (\<lambda>r. list_all (\<lambda>c. passes C orf c r) q) table))"

text \<open>The columns of \<open>event_submissions\<close> that the queries of the Explore screen name.\<close>

definition event_columns :: "'a EventRow_scheme columns" where
  "event_columns =
     \<lparr>text_col = (\<lambda>c r. if c = ''status'' then er_status r
                        else if c = ''id'' then Some (er_id r)
                        else if c = ''title'' then Some (er_title r)
                        else if c = ''location'' then er_location r
                        else None),
      time_col = (\<lambda>c r. if c = ''start_time'' then er_start_time r
                        else if c = ''end_time'' then er_end_time r
                        else if c = ''created_at'' then er_created_at r
                        else None),
      array_col = (\<lambda>c r. if c = ''tags'' then map_option (map tag_text) (er_tags r) else None)\<rparr>"

section \<open>Home screen: upcoming and trending lists (pages/HomeUser.tsx)\<close>

text \<open>
  \<open>EventItem\<close>, used both for the rows the backend returns (typed \<open>any\<close> in the code) and
  for the normalised items; a field that is missing or undefined is \<open>None\<close>. Timestamps
  stay the text the backend sends: the code only tests them for truthiness and formats
  them with \<open>new Date(s).toLocaleString()\<close>, a function of the device's locale that is a
  parameter of the model.
\<close>

text \<open>
  A value that the code uses as a number: a number (the counts are whole numbers), or
  something that is not a number.
\<close>

datatype jsval = Num int | NotNum

record EventItem =
  ei_id :: string
  ei_title :: "string option"
  ei_description :: "string option"
  ei_start_time :: "string option"
  ei_time :: "string option"
  ei_end_time :: "string option"
  ei_location :: "string option"
  ei_tags :: "string list option"
  ei_poster_url :: "string option"
  ei_organizer :: "string option"
  ei_subreddits :: "string list option"
  ei_status :: "string option"
  ei_created_at :: "string option"
  ei_registration_count :: "jsval option"
  ei_category :: "string option"

text \<open>\<open>ev.start_time ? new Date(ev.start_time).toLocaleString() : other\<close>\<close>

definition derived_time :: "(string \<Rightarrow> string) \<Rightarrow> string option \<Rightarrow> string option \<Rightarrow> string option" where
  "derived_time toLocaleString start other =
     (case start of
        None \<Rightarrow> other
      | Some s \<Rightarrow> if s \<noteq> '''' then Some (toLocaleString s) else other)"

text \<open>\<open>ev.tags?.[0] || undefined\<close>\<close>

definition first_category :: "string list option \<Rightarrow> string option" where
  "first_category tags =
     (case tags of
        None \<Rightarrow> None
      | Some [] \<Rightarrow> None
      | Some (t # ts) \<Rightarrow> if t \<noteq> '''' then Some t else None)"

definition normalizeUpcoming :: "(string \<Rightarrow> string) \<Rightarrow> EventItem \<Rightarrow> EventItem" where
  "normalizeUpcoming toLocaleString ev =
     \<lparr>ei_id = ei_id ev,
      ei_title = ei_title ev,
      ei_description = ei_description ev,
      ei_start_time = ei_start_time ev,
      ei_time = derived_time toLocaleString (ei_start_time ev) (ei_time ev),
      ei_end_time = ei_end_time ev,
      ei_location = ei_location ev,
      ei_tags = ei_tags ev,
      ei_poster_url = ei_poster_url ev,
      ei_organizer = ei_organizer ev,
      ei_subreddits = None,
      ei_status = ei_status ev,
      ei_created_at = ei_created_at ev,
      ei_registration_count = None,
      ei_category = first_category (ei_tags ev)\<rparr>"

definition normalizeTrending :: "(string \<Rightarrow> string) \<Rightarrow> EventItem \<Rightarrow> EventItem" where
  "normalizeTrending toLocaleString ev =
     \<lparr>ei_id = ei_id ev,
      ei_title = ei_title ev,
      ei_description = ei_description ev,
      ei_start_time = ei_start_time ev,
      ei_time = derived_time toLocaleString (ei_start_time ev) (ei_time ev),
      ei_end_time = None,
      ei_location = ei_location ev,
      ei_tags = None,
      ei_poster_url = None,
      ei_organizer = None,
      ei_subreddits = None,
      ei_status = None,
      ei_created_at = None,
      ei_registration_count =
        Some (case ei_registration_count ev of None \<Rightarrow> Num 0 | Some v \<Rightarrow> v),
      ei_category = first_category (ei_tags ev)\<rparr>"

subsection \<open>The client-side aggregation of the trending fallback\<close>

text \<open>
  A registration row carries its \<open>event_id\<close>; the code guards against a null row and a
  falsy id.

  \<open>counts\<close> is an object literal used as a dictionary, so a read \<open>counts[k]\<close> finds the
  object's own property \<open>k\<close> or, failing that, the property \<open>k\<close> that every object inherits
  from \<open>Object.prototype\<close>: a function, or for \<open>__proto__\<close> the prototype itself. The map
  holds the own properties. An inherited value is truthy and not a number; adding 1 to it
  gives a string, which is truthy and not a number either: \<open>NotNum\<close> stands for all of
  these. (A write to \<open>__proto__\<close> of such a string is ignored by the language and the read
  gives the prototype again: again \<open>NotNum\<close>.)
\<close>

record Registration =
  event_id :: "string option"

definition object_prototype_keys :: "string list" where
  "object_prototype_keys =
     [''constructor'', ''hasOwnProperty'', ''isPrototypeOf'', ''propertyIsEnumerable'',
      ''toLocaleString'', ''toString'', ''valueOf'', ''__proto__'', ''__defineGetter__'',
      ''__defineSetter__'', ''__lookupGetter__'', ''__lookupSetter__'']"

definition get_property :: "(string \<rightharpoonup> jsval) \<Rightarrow> string \<Rightarrow> jsval option" where
  "get_property obj k =
     (case obj k of
        Some v \<Rightarrow> Some v
      | None \<Rightarrow> if k \<in> set object_prototype_keys then Some NotNum else None)"

text \<open>\<open>v || 0\<close> and \<open>v + 1\<close>\<close>

fun or_zero :: "jsval option \<Rightarrow> jsval" where
  "or_zero None = Num 0"
| "or_zero (Some (Num c)) = Num c"
| "or_zero (Some NotNum) = NotNum"

fun plus_one :: "jsval \<Rightarrow> jsval" where
  "plus_one (Num c) = Num (c + 1)"
| "plus_one NotNum = NotNum"

definition count_registration ::
  "Registration option \<Rightarrow> (string \<rightharpoonup> jsval) \<Rightarrow> (string \<rightharpoonup> jsval)" where
  "count_registration r counts =
     (case r of
        None \<Rightarrow> counts
      | Some reg \<Rightarrow>
          (case event_id reg of
             None \<Rightarrow> counts
           | Some k \<Rightarrow>
               if k \<noteq> ''''
               then counts(k \<mapsto> plus_one (or_zero (get_property counts k)))
               else counts))"

definition count_registrations :: "Registration option list \<Rightarrow> (string \<rightharpoonup> jsval)" where
  "count_registrations regs = fold count_registration regs Map.empty"

definition enrich ::
  "(string \<Rightarrow> string) \<Rightarrow> (string \<rightharpoonup> jsval) \<Rightarrow> EventItem \<Rightarrow> EventItem" where
  "enrich toLocaleString counts ev =
     \<lparr>ei_id = ei_id ev,
      ei_title = ei_title ev,
      ei_description = None,
      ei_start_time = ei_start_time ev,
      ei_time = derived_time toLocaleString (ei_start_time ev) None,
      ei_end_time = None,
      ei_location = ei_location ev,
      ei_tags = None,
      ei_poster_url = None,
      ei_organizer = None,
      ei_subreddits = None,
      ei_status = None,
      ei_created_at = None,
      ei_registration_count = Some (or_zero (get_property counts (ei_id ev))),
      ei_category = first_category (ei_tags ev)\<rparr>"

text \<open>
  The comparator of the sort, \<open>(b.registration_count || 0) - (a.registration_count || 0)\<close>:
  the difference of two numbers, or NaN (\<open>None\<close>) when a side is not a number.
\<close>

definition comparator :: "EventItem \<Rightarrow> EventItem \<Rightarrow> int option" where
  "comparator a b =
     (case or_zero (ei_registration_count b) of
        NotNum \<Rightarrow> None
      | Num y \<Rightarrow> (case or_zero (ei_registration_count a) of NotNum \<Rightarrow> None | Num x \<Rightarrow> Some (y - x)))"

text \<open>
  The array sort is stable and reads a NaN from the comparator as 0. It is written here as
  the stable insertion sort: an element goes in front of the first one that the comparator
  does not put before it. For a comparator that orders the elements consistently every
  stable sort gives this list; for one that does not, the language leaves the order to the
  implementation.
\<close>

fun insert_sorted :: "('a \<Rightarrow> 'a \<Rightarrow> int option) \<Rightarrow> 'a \<Rightarrow> 'a list \<Rightarrow> 'a list" where
  "insert_sorted cmp x [] = [x]"
| "insert_sorted cmp x (y # ys) =
     (if (case cmp x y of None \<Rightarrow> 0 | Some v \<Rightarrow> v) \<le> 0 then x # y # ys
      else y # insert_sorted cmp x ys)"

definition array_sort :: "('a \<Rightarrow> 'a \<Rightarrow> int option) \<Rightarrow> 'a list \<Rightarrow> 'a list" where
  "array_sort cmp xs = foldr (insert_sorted cmp) xs []"

definition trendingFallback ::
  "(string \<Rightarrow> string) \<Rightarrow> EventItem list \<Rightarrow> Registration option list \<Rightarrow> EventItem list" where
  "trendingFallback toLocaleString evs regs =
     (let counts = count_registrations regs;
          enriched = map (enrich toLocaleString counts) evs;
          enriched = array_sort comparator enriched
      in take 8 enriched)"

subsection \<open>The two loaders\<close>

datatype level = ConsoleLogLine | ConsoleWarnLine | ConsoleErrorLine

record HomeState =
  upcomingEvents :: "EventItem list"
  trendingEvents :: "EventItem list"
  loadingUpcoming :: bool
  loadingTrending :: bool
  console_lines :: "level list"

definition console_line :: "level \<Rightarrow> HomeState \<Rightarrow> HomeState" where
  "console_line l st = st\<lparr>console_lines := console_lines st @ [l]\<rparr>"

text \<open>
  \<open>mounted\<close> is the flag of the effect's closure, false once the screen is left; it is
  read after the \<open>await\<close>, and every write to a list is guarded by it.
\<close>

definition setUpcomingEvents :: "bool \<Rightarrow> EventItem list \<Rightarrow> HomeState \<Rightarrow> HomeState" where
  "setUpcomingEvents mounted rows st = (if mounted then st\<lparr>upcomingEvents := rows\<rparr> else st)"

definition setTrendingEvents :: "bool \<Rightarrow> EventItem list \<Rightarrow> HomeState \<Rightarrow> HomeState" where
  "setTrendingEvents mounted rows st = (if mounted then st\<lparr>trendingEvents := rows\<rparr> else st)"

definition loadUpcoming_try ::
  "(string \<Rightarrow> string) \<Rightarrow> bool \<Rightarrow> EventItem response \<Rightarrow> HomeState \<Rightarrow> HomeState completion" where
  "loadUpcoming_try toLocaleString mounted resp st =
     (let st = console_line ConsoleLogLine st
      in case resp of
           Rejected e \<Rightarrow> Throw e st
         | Resolved data error \<Rightarrow>
             (case error of
                Some err \<Rightarrow>
                  Return (setUpcomingEvents mounted [] (console_line ConsoleWarnLine st))
              | None \<Rightarrow>
                  (let rows = (case data of None \<Rightarrow> [] | Some d \<Rightarrow> d);
                       st = console_line ConsoleLogLine st;
                       normalized = map (normalizeUpcoming toLocaleString) rows
                   in Return (setUpcomingEvents mounted normalized st))))"

definition loadUpcoming ::
  "(string \<Rightarrow> string) \<Rightarrow> bool \<Rightarrow> EventItem response \<Rightarrow> HomeState \<Rightarrow> HomeState completion" where
  "loadUpcoming toLocaleString mounted resp st =
     (let st = st\<lparr>loadingUpcoming := True\<rparr>;
          caught = (case loadUpcoming_try toLocaleString mounted resp st of
                      Return s \<Rightarrow> Return s
                    | Throw e s \<Rightarrow>
                        Return (setUpcomingEvents mounted [] (console_line ConsoleErrorLine s)))
      in case caught of
           Return s \<Rightarrow> Return (if mounted then s\<lparr>loadingUpcoming := False\<rparr> else s)
         | Throw e s \<Rightarrow> Throw e (if mounted then s\<lparr>loadingUpcoming := False\<rparr> else s))"

text \<open>
  \<open>Promise.all\<close> of the two sub-fetches of the fallback: it rejects when either promise
  rejects, otherwise it yields both results, of which the code reads \<open>data || []\<close>.
\<close>

definition promise_all ::
  "EventItem response \<Rightarrow> Registration option response \<Rightarrow>
   string + (EventItem list \<times> Registration option list)" where
  "promise_all eventsRes regsRes =
     (case eventsRes of
        Rejected e \<Rightarrow> Inl e
      | Resolved events_data events_error \<Rightarrow>
          (case regsRes of
             Rejected e \<Rightarrow> Inl e
           | Resolved regs_data regs_error \<Rightarrow>
               Inr (case events_data of None \<Rightarrow> [] | Some d \<Rightarrow> d,
                    case regs_data of None \<Rightarrow> [] | Some d \<Rightarrow> d)))"

definition loadTrending_try ::
  "(string \<Rightarrow> string) \<Rightarrow> bool \<Rightarrow> EventItem response \<Rightarrow> EventItem response \<Rightarrow>
   Registration option response \<Rightarrow> HomeState \<Rightarrow> HomeState completion" where
  "loadTrending_try toLocaleString mounted viewRes eventsRes regsRes st =
     (let st = console_line ConsoleLogLine st
      in case viewRes of
           Rejected e \<Rightarrow> Throw e st
         | Resolved data error \<Rightarrow>
             if error \<noteq> None \<or> data = None then
               (let st = console_line ConsoleWarnLine st
                in case promise_all eventsRes regsRes of
                     Inl e \<Rightarrow> Throw e st
                   | Inr (evs, regs) \<Rightarrow>
                       Return (setTrendingEvents mounted
                                 (trendingFallback toLocaleString evs regs) st))
             else
               (let st = console_line ConsoleLogLine st;
                    normalized =
                      map (normalizeTrending toLocaleString)
                        (case data of None \<Rightarrow> [] | Some d \<Rightarrow> d)
                in Return (setTrendingEvents mounted normalized st)))"

definition loadTrending ::
  "(string \<Rightarrow> string) \<Rightarrow> bool \<Rightarrow> EventItem response \<Rightarrow> EventItem response \<Rightarrow>
   Registration option response \<Rightarrow> HomeState \<Rightarrow> HomeState completion" where
  "loadTrending toLocaleString mounted viewRes eventsRes regsRes st =
     (let st = st\<lparr>loadingTrending := True\<rparr>;
          caught = (case loadTrending_try toLocaleString mounted viewRes eventsRes regsRes st of
                      Return s \<Rightarrow> Return s
                    | Throw e s \<Rightarrow>
                        Return (setTrendingEvents mounted [] (console_line ConsoleErrorLine s)))
      in case caught of
           Return s \<Rightarrow> Return (if mounted then s\<lparr>loadingTrending := False\<rparr> else s)
         | Throw e s \<Rightarrow> Throw e (if mounted then s\<lparr>loadingTrending := False\<rparr> else s))"

section \<open>Event details: the discussion list (pages/EventDetails.tsx)\<close>

text \<open>
  A row of \<open>reddit_comments\<close>. The query selects every column; \<open>event_id\<close> is the column
  the code filters on, and whatever else a row holds (the payload among it) is the
  record's extension.
\<close>

datatype reddit_type = Post | Comment

record RedditRow =
  rr_id :: string
  rr_reddit_id :: string
  rr_subreddit :: string
  rr_type :: reddit_type
  rr_title :: "string option"
  rr_body :: "string option"
  rr_author :: "string option"
  rr_sentiment :: "int option"
  rr_created_utc :: "Date option"
  rr_event_id :: "string option"

definition reddit_columns :: "'a RedditRow_scheme columns" where
  "reddit_columns =
     \<lparr>text_col = (\<lambda>c r. if c = ''event_id'' then rr_event_id r
                        else if c = ''id'' then Some (rr_id r)
                        else if c = ''reddit_id'' then Some (rr_reddit_id r)
                        else if c = ''subreddit'' then Some (rr_subreddit r)
                        else if c = ''title'' then rr_title r
                        else if c = ''body'' then rr_body r
                        else if c = ''author'' then rr_author r
                        else None),
      time_col = (\<lambda>c r. if c = ''created_utc'' then rr_created_utc r else None),
      array_col = (\<lambda>c r. None)\<rparr>"

definition fetchDiscussions_query :: "string \<Rightarrow> call list" where
  "fetchDiscussions_query safeId =
     [From ''reddit_comments'', Select ''*'', Eq ''event_id'' safeId,
      Order ''created_utc'' False, Limit 200]"

text \<open>
  The state holds what \<open>setDiscussions\<close> was given last: an array, or null when the
  backend answered with neither data nor error.
\<close>

record 'r DetailsState =
  discussions :: "'r list option"
  loadingDisc :: bool

text \<open>
  \<open>fetchDiscussions\<close> has no \<open>try\<close>: a rejected query is thrown on. \<open>mounted\<close> is the flag
  of the effect's closure, read after the \<open>await\<close>.
\<close>

definition fetchDiscussions ::
  "bool \<Rightarrow> 'r response \<Rightarrow> 'r DetailsState \<Rightarrow> 'r DetailsState completion" where
  "fetchDiscussions mounted resp st =
     (let st = st\<lparr>loadingDisc := True\<rparr>
      in case resp of
           Rejected e \<Rightarrow> Throw e st
         | Resolved data error \<Rightarrow>
             (let st = (if error \<noteq> None
                        then (if mounted then st\<lparr>discussions := Some []\<rparr> else st)
                        else if mounted then st\<lparr>discussions := data\<rparr>
                        else st)
              in Return (if mounted then st\<lparr>loadingDisc := False\<rparr> else st)))"

text \<open>
  The handler of the realtime subscription, \<open>setDiscussions((prev) => [payload.new,
  ...prev])\<close>; spreading a null \<open>prev\<close> throws.
\<close>

definition on_insert :: "'r \<Rightarrow> 'r DetailsState \<Rightarrow> 'r DetailsState completion" where
  "on_insert payload_new st =
     (case discussions st of
        None \<Rightarrow> Throw ''TypeError'' st
      | Some prev \<Rightarrow> Return (st\<lparr>discussions := Some (payload_new # prev)\<rparr>))"

text \<open>
  The subscription asks for the \<open>INSERT\<close> events of \<open>reddit_comments\<close> with the filter
  \<open>event_id=eq.safeId\<close>: the backend calls the handler for an inserted row of that event
  and for nothing else.
\<close>

datatype 'r change = INSERT 'r | UPDATE 'r | DELETE 'r

definition deliver ::
  "string \<Rightarrow> 'a RedditRow_scheme change \<Rightarrow> 'a RedditRow_scheme DetailsState \<Rightarrow>
   'a RedditRow_scheme DetailsState completion" where
  "deliver safeId ch st =
     (case ch of
        INSERT row \<Rightarrow> if rr_event_id row = Some safeId then on_insert row st else Return st
      | UPDATE row \<Rightarrow> Return st
      | DELETE row \<Rightarrow> Return st)"

section \<open>Explore screen: the debounced effect (pages/Explore.tsx, useEffect)\<close>

text \<open>
  The effect runs after every render in which the filter state changed; before it runs,
  the cleanup the previous run returned (if it returned one) is called. Times are in
  milliseconds. The runtime's pending timers are kept as a list, in the order they were
  set: each has its id, the time it is due and the filter state that the \<open>fetchEvents\<close> of
  its callback has captured. Timer ids are positive, so a held id is truthy.
\<close>

record SyncState =
  debounceRef :: "nat option"
  timers :: "(nat \<times> nat \<times> FilterState) list"
  next_timer :: nat
  cleanup :: bool
  fetch_calls :: "(nat \<times> FilterState) list"

definition mount_state :: SyncState where
  "mount_state =
     \<lparr>debounceRef = None, timers = [], next_timer = 1, cleanup = False, fetch_calls = []\<rparr>"

definition clearTimeout :: "nat \<Rightarrow> SyncState \<Rightarrow> SyncState" where
  "clearTimeout i st = st\<lparr>timers := filter (\<lambda>(j, due, fs). j \<noteq> i) (timers st)\<rparr>"

text \<open>The cleanup function the debounced branch returns.\<close>

definition effect_cleanup :: "SyncState \<Rightarrow> SyncState" where
  "effect_cleanup st =
     (case debounceRef st of
        None \<Rightarrow> st
      | Some i \<Rightarrow> (clearTimeout i st)\<lparr>debounceRef := None\<rparr>)"

text \<open>The body of the effect, run at time \<open>now\<close> for the filter state \<open>fs\<close> of the render.\<close>

definition effect_body :: "nat \<Rightarrow> FilterState \<Rightarrow> SyncState \<Rightarrow> SyncState" where
  "effect_body now fs st =
     (let st = (case debounceRef st of None \<Rightarrow> st | Some i \<Rightarrow> clearTimeout i st)
      in if searchText fs = []
         then st\<lparr>fetch_calls := fetch_calls st @ [(now, fs)], cleanup := False\<rparr>
         else st\<lparr>timers := timers st @ [(next_timer st, now + 400, fs)],
                 debounceRef := Some (next_timer st),
                 next_timer := next_timer st + 1,
                 cleanup := True\<rparr>)"

text \<open>
  The runtime: by time \<open>now\<close> every pending timer that is due has fired, and its callback
  has called \<open>fetchEvents()\<close> at the time it was due.
\<close>

definition fire_due :: "nat \<Rightarrow> SyncState \<Rightarrow> SyncState" where
  "fire_due now st =
     st\<lparr>timers := filter (\<lambda>(j, due, fs). \<not> due \<le> now) (timers st),
        fetch_calls := fetch_calls st @
          map (\<lambda>(j, due, fs). (due, fs)) (filter (\<lambda>(j, due, fs). due \<le> now) (timers st))\<rparr>"

text \<open>A change of the filter state at time \<open>now\<close>, to \<open>fs\<close>.\<close>

definition filter_change :: "nat \<Rightarrow> FilterState \<Rightarrow> SyncState \<Rightarrow> SyncState" where
  "filter_change now fs st =
     (let st = fire_due now st;
          st = (if cleanup st then effect_cleanup st else st)
      in effect_body now fs st)"

section \<open>Vocabulary of the properties\<close>

text \<open>
  A text predicate of a query: an \<open>Or\<close> filter, or a comparison on the title or location
  column. In the syntax of an \<open>Or\<close> filter the alternatives are separated by commas (the
  code's comment at the call shows it: \<open>title.ilike.%foo%,location.ilike.%foo%\<close>); an
  \<open>ILIKE\<close> alternative is written \<open>column.ilike.pattern\<close>, and \<open>%\<close> is the wildcard.
  \<open>alternatives\<close> cuts a filter text at every comma (code unit 44); the quoting and the
  nesting that the syntax also has, and that the code never writes, are left out.
\<close>

definition text_column :: "string \<Rightarrow> bool" where
  "text_column c = (c = ''title'' \<or> c = ''location'')"

fun is_text_call :: "call \<Rightarrow> bool" where
  "is_text_call (Or f) = True"
| "is_text_call (In c vs) = text_column c"
| "is_text_call (Eq c v) = text_column c"
| "is_text_call (Contains c vs) = text_column c"
| "is_text_call other = False"

definition ilike :: "string \<Rightarrow> jsstring \<Rightarrow> jsstring" where
  "ilike column pattern = units column @ units ''.ilike.'' @ pattern"

definition wildcards :: "jsstring \<Rightarrow> jsstring" where
  "wildcards s = units ''%'' @ s @ units ''%''"

fun alternatives :: "jsstring \<Rightarrow> jsstring list" where
  "alternatives [] = [[]]"
| "alternatives (c # cs) =
     (if c = 44 then [] # alternatives cs
      else (case alternatives cs of [] \<Rightarrow> [[c]] | a # rest \<Rightarrow> (c # a) # rest))"

text \<open>The status predicates and the ordering of a query.\<close>

fun is_status_call :: "call \<Rightarrow> bool" where
  "is_status_call (In c vs) = (c = ''status'')"
| "is_status_call (Eq c v) = (c = ''status'')"
| "is_status_call other = False"

fun is_order_call :: "call \<Rightarrow> bool" where
  "is_order_call (Order c ascending) = True"
| "is_order_call other = False"

definition shown_status :: "'a EventRow_scheme \<Rightarrow> bool" where
  "shown_status r = (er_status r = Some ''approved'' \<or> er_status r = Some ''pending'')"

text \<open>Two rows in ascending order of start time: both have one, and the first is not later.\<close>

definition start_time_le :: "'a EventRow_scheme \<Rightarrow> 'a EventRow_scheme \<Rightarrow> bool" where
  "start_time_le a b =
     (case er_start_time a of
        None \<Rightarrow> False
      | Some x \<Rightarrow> (case er_start_time b of None \<Rightarrow> False | Some y \<Rightarrow> x \<le> y))"

definition starts_from :: "Date \<Rightarrow> 'a EventRow_scheme \<Rightarrow> bool" where
  "starts_from now r = (case er_start_time r of None \<Rightarrow> False | Some t \<Rightarrow> now \<le> t)"

text \<open>A row of \<open>event_submissions\<close> with the given id, status and start time.\<close>

definition event_row :: "string \<Rightarrow> string \<Rightarrow> Date \<Rightarrow> EventRow" where
  "event_row i s t =
     \<lparr>er_id = i, er_title = ''Event'', er_description = None, er_start_time = Some t,
      er_end_time = None, er_location = None, er_tags = None, er_status = Some s,
      er_created_at = None\<rparr>"

text \<open>
  A tag that is a string in lower case: a string that \<open>toLowerCase\<close> leaves as it is.
  \<open>ascii_lower\<close> is the lowering of the letters A to Z alone (code units 65 to 90), an
  instance for examples.
\<close>

fun lowercase_tag :: "(jsstring \<Rightarrow> jsstring) \<Rightarrow> tag \<Rightarrow> bool" where
  "lowercase_tag toLowerCase (Str s) = (toLowerCase s = s)"
| "lowercase_tag toLowerCase (NonStr s) = False"

definition ascii_lower_unit :: "nat \<Rightarrow> nat" where
  "ascii_lower_unit c = (if 65 \<le> c \<and> c \<le> 90 then c + 32 else c)"

definition ascii_lower :: "jsstring \<Rightarrow> jsstring" where
  "ascii_lower s = map ascii_lower_unit s"

text \<open>
  An item in the shape the normalisation of the upcoming list gives: the time is the one
  derived from the start time, the category is the first tag, and the fields the
  normalisation leaves out are absent.
\<close>

definition normalized_item :: "(string \<Rightarrow> string) \<Rightarrow> EventItem \<Rightarrow> bool" where
  "normalized_item toLocaleString ev =
     (ei_time ev = derived_time toLocaleString (ei_start_time ev) (ei_time ev)
      \<and> ei_category ev = first_category (ei_tags ev)
      \<and> ei_subreddits ev = None
      \<and> ei_registration_count ev = None)"

text \<open>Kinds of trace entries, and the state a completion carries.\<close>

fun is_SetLoading :: "'r effect \<Rightarrow> bool" where
  "is_SetLoading (SetLoading b) = True"
| "is_SetLoading other = False"

fun is_Await :: "'r effect \<Rightarrow> bool" where
  "is_Await (Await q) = True"
| "is_Await other = False"

fun state_of :: "'s completion \<Rightarrow> 's" where
  "state_of (Return s) = s"
| "state_of (Throw e s) = s"

text \<open>
  The number of registration records whose \<open>event_id\<close> is \<open>k\<close>. An id as the server
  assigns it: not empty and not the name of a property of \<open>Object.prototype\<close>. Whether a
  registration names one of the events; the count of an item as a number; the descending
  order of the ranking; and the rows of the specification's example.
\<close>

definition registrations_for :: "string \<Rightarrow> Registration option list \<Rightarrow> int" where
  "registrations_for k regs =
     int (length (filter (\<lambda>r. case r of None \<Rightarrow> False | Some reg \<Rightarrow> event_id reg = Some k) regs))"

definition server_id :: "string \<Rightarrow> bool" where
  "server_id k = (k \<noteq> '''' \<and> k \<notin> set object_prototype_keys)"

definition names_event :: "EventItem list \<Rightarrow> Registration option \<Rightarrow> bool" where
  "names_event evs r =
     (case r of
        None \<Rightarrow> False
      | Some reg \<Rightarrow> (case event_id reg of None \<Rightarrow> False | Some k \<Rightarrow> k \<in> set (map ei_id evs)))"

definition count_of :: "EventItem \<Rightarrow> int" where
  "count_of x = (case ei_registration_count x of Some (Num c) \<Rightarrow> c | other \<Rightarrow> 0)"

definition count_ge :: "EventItem \<Rightarrow> EventItem \<Rightarrow> bool" where
  "count_ge a b = (count_of b \<le> count_of a)"

definition event_item :: "string \<Rightarrow> EventItem" where
  "event_item i =
     \<lparr>ei_id = i, ei_title = None, ei_description = None, ei_start_time = None, ei_time = None,
      ei_end_time = None, ei_location = None, ei_tags = None, ei_poster_url = None,
      ei_organizer = None, ei_subreddits = None, ei_status = None, ei_created_at = None,
      ei_registration_count = None, ei_category = None\<rparr>"

definition registration :: "string \<Rightarrow> Registration option" where
  "registration k = Some \<lparr>event_id = Some k\<rparr>"

text \<open>
  The fetched events in the order they were fetched, each in the shape of the ranking and
  with the number of its registration records as its count.
\<close>

definition joined ::
  "(string \<Rightarrow> string) \<Rightarrow> EventItem list \<Rightarrow> Registration option list \<Rightarrow> EventItem list" where
  "joined f evs regs =
     map (\<lambda>ev. (enrich f Map.empty ev)
                 \<lparr>ei_registration_count := Some (Num (registrations_for (ei_id ev) regs))\<rparr>) evs"

text \<open>
  Two discussion rows in descending order of \<open>created_utc\<close>: a row without the time
  comes before any other, a row with a time only before rows with a time not later.
\<close>

definition created_utc_ge :: "'a RedditRow_scheme \<Rightarrow> 'a RedditRow_scheme \<Rightarrow> bool" where
  "created_utc_ge a b =
     (case rr_created_utc a of
        None \<Rightarrow> True
      | Some x \<Rightarrow> (case rr_created_utc b of None \<Rightarrow> False | Some y \<Rightarrow> y \<le> x))"

text \<open>
  The debouncing state: exactly one timer is pending, due at \<open>due\<close> with the filter state
  \<open>fs\<close> captured, its id is held in \<open>debounceRef\<close>, and the cleanup is registered.
\<close>

definition debouncing :: "SyncState \<Rightarrow> nat \<Rightarrow> FilterState \<Rightarrow> bool" where
  "debouncing st due fs =
     (timers st = [(next_timer st - 1, due, fs)] \<and> debounceRef st = Some (next_timer st - 1)
      \<and> cleanup st)"

text \<open>
  Time zones for examples. A zone with one offset; a zone with one transition, at the
  instant \<open>at\<close>, from the offset \<open>before\<close> to the offset \<open>after\<close> (a local time that the
  transition skips or repeats is read with \<open>before\<close>); New York around the start of
  daylight saving on 2024-03-10 (07:00 UTC, from five to four hours behind), Cairo
  around the start of daylight saving on 2024-04-26 at local midnight (2024-04-25 22:00
  UTC, from two to three hours ahead), and Nuuk around the start of daylight saving on
  2024-03-30 at 23:00 local time (2024-03-31 01:00 UTC, from two hours to one hour
  behind).
\<close>

definition fixed_zone :: "int \<Rightarrow> zone" where
  "fixed_zone offset = (\<lambda>t isUTC. offset)"

definition one_transition :: "int \<Rightarrow> int \<Rightarrow> int \<Rightarrow> zone" where
  "one_transition before after at =
     (\<lambda>t isUTC. if isUTC then (if t < at then before else after)
                else (if t < at + max before after then before else after))"


definition cairo_2024 :: zone where
  "cairo_2024 = one_transition 7200000 10800000 1714082400000"


section \<open>Relative time windows\<close>



























lemma fixed_zone_keeps: "Day (LocalTime (fixed_zone z) (UTC (fixed_zone z) l)) = Day l"
  by (simp add: LocalTime_def UTC_def fixed_zone_def)

lemma fixed_zone_spread: "fixed_zone z l' False - fixed_zone z l False < msPerDay"
  by (simp add: fixed_zone_def msPerDay_def)







text \<open>
  Known dates: day 0 is 1970-01-01, day 19853 is 2024-05-10, day 19782 is 2024-02-29 and
  day -1 is 1969-12-31. At 13:00 UTC on 2024-05-10, with the local zone UTC, the \<open>today\<close>
  window runs from 2024-05-10T00:00:00.000 to 2024-05-10T23:59:59.999; at the same
  instant in a zone five and a half hours ahead the \<open>nextWeek\<close> window runs from Monday
  2024-05-13 to Sunday 2024-05-19, local time.
\<close>

lemma DateOfDay_examples:
  "DateOfDay 0 = 1 \<and> DateOfDay 19853 = 10 \<and> DateOfDay 19782 = 29 \<and> DateOfDay (- 1) = 31"
  by code_simp


lemma nextWeek_example:
  "buildTimeRange (fixed_zone 19800000) 1715346000000 NextWeek
     = Some \<lparr>range_start = 1715538600000, range_end = 1716143399999\<rparr>"
  by code_simp



text \<open>
  Where the zone skips local midnight the start of the day is the instant of the
  transition, and the local clock shows the first time after the gap. In Cairo daylight
  saving began on 2024-04-26 at 00:00, the clocks going to 01:00: at 10:00 UTC on that
  day the \<open>today\<close> window starts at 2024-04-25T22:00:00.000Z, where the local clock of
  2024-04-26 (day 19839) shows 01:00:00.000.
\<close>

lemma cairo_today:
  "buildTimeRange cairo_2024 1714125600000 Today
     = Some \<lparr>range_start = 1714082400000, range_end = 1714165199999\<rparr>
   \<and> localDay cairo_2024 1714082400000 = 19839
   \<and> TimeWithinDay (LocalTime cairo_2024 1714082400000) = 3600000"
  by code_simp


section \<open>The text predicate of the event query\<close>

lemma rev_dropWhile_split:
  "rev (dropWhile P (rev t)) @ rev (takeWhile P (rev t)) = t"
proof -
  have "rev (dropWhile P (rev t)) @ rev (takeWhile P (rev t))
      = rev (takeWhile P (rev t) @ dropWhile P (rev t))"
    by (simp only: rev_append)
  also have "\<dots> = rev (rev t)" by (simp only: takeWhile_dropWhile_id)
  finally show ?thesis by simp
qed

lemma trim_split:
  "takeWhile is_ws s @ trim s @ rev (takeWhile is_ws (rev (dropWhile is_ws s))) = s"
  by (simp add: trim_def rev_dropWhile_split)

lemma list_all_takeWhile: "list_all P (takeWhile P xs)"
  by (induction xs) auto

lemma trim_parts:
  "\<exists>a b. s = a @ trim s @ b \<and> list_all is_ws a \<and> list_all is_ws b"
proof -
  have "list_all is_ws (rev (takeWhile is_ws (rev (dropWhile is_ws s))))"
    using list_all_takeWhile[of is_ws "rev (dropWhile is_ws s)"] by (simp add: list_all_iff)
  with trim_split[of s, symmetric] list_all_takeWhile[of is_ws s] show ?thesis by blast
qed

lemma trim_ends:
  "trim s = [] \<or> (\<not> is_ws (hd (trim s)) \<and> \<not> is_ws (last (trim s)))"
proof (cases "trim s = []")
  case True then show ?thesis by simp
next
  case False
  define t where "t = dropWhile is_ws s"
  have ne: "dropWhile is_ws (rev t) \<noteq> []" using False by (simp add: trim_def t_def)
  then have l: "\<not> is_ws (hd (dropWhile is_ws (rev t)))" by (rule hd_dropWhile)
  have tne: "t \<noteq> []" using ne by auto
  then have h: "\<not> is_ws (hd t)" unfolding t_def by (rule hd_dropWhile)
  have "last (trim s) = hd (dropWhile is_ws (rev t))"
    using ne by (simp add: trim_def t_def last_rev)
  moreover have "hd (trim s) = hd t"
  proof -
    have "trim s @ rev (takeWhile is_ws (rev t)) = t"
      by (simp add: trim_def t_def rev_dropWhile_split)
    then show ?thesis using False by (metis hd_append2)
  qed
  ultimately show ?thesis using l h by simp
qed

lemma alternatives_nonempty: "alternatives xs \<noteq> []"
  by (induction xs) (auto split: list.split)

lemma alternatives_append:
  "alternatives (xs @ 44 # ys) = alternatives xs @ alternatives ys"
proof (induction xs)
  case Nil
  then show ?case by simp
next
  case (Cons c cs)
  then show ?case
    using alternatives_nonempty[of cs] by (cases "alternatives cs") auto
qed

lemma alternatives_whole: "44 \<notin> set xs \<Longrightarrow> alternatives xs = [xs]"
  by (induction xs) auto

lemma length_alternatives: "length (alternatives xs) = 1 + count_list xs 44"
  by (induction xs) (auto split: list.split simp: alternatives_nonempty)

lemma count_list_append: "count_list (xs @ ys) a = count_list xs a + count_list ys a"
  by (induction xs) auto

lemma count_list_zero: "a \<notin> set xs \<Longrightarrow> count_list xs a = 0"
  by (induction xs) auto

lemma count_list_pos: "a \<in> set xs \<Longrightarrow> 0 < count_list xs a"
  by (induction xs) auto

lemma ilike_commas:
  "count_list (ilike ''title'' (wildcards s)) 44 = count_list s 44"
  "count_list (ilike ''location'' (wildcards s)) 44 = count_list s 44"
  by (simp_all add: ilike_def wildcards_def units_def count_list_append)

lemma ilike_no_comma:
  "44 \<notin> set s \<Longrightarrow> 44 \<notin> set (ilike ''title'' (wildcards s))"
  "44 \<notin> set s \<Longrightarrow> 44 \<notin> set (ilike ''location'' (wildcards s))"
  by (simp_all add: ilike_def wildcards_def units_def)

lemma or_text_alternatives:
  "alternatives (ilike ''title'' (wildcards s) @ 44 # ilike ''location'' (wildcards s))
     = alternatives (ilike ''title'' (wildcards s)) @ alternatives (ilike ''location'' (wildcards s))"
  by (rule alternatives_append)

lemma or_text_length:
  "length (alternatives (ilike ''title'' (wildcards s) @ 44 # ilike ''location'' (wildcards s)))
     = 2 + 2 * count_list s 44"
  by (simp add: or_text_alternatives length_alternatives ilike_commas)

lemma or_text_two:
  "(alternatives (ilike ''title'' (wildcards s) @ 44 # ilike ''location'' (wildcards s))
      = [ilike ''title'' (wildcards s), ilike ''location'' (wildcards s)]) = (44 \<notin> set s)"
proof (cases "44 \<in> set s")
  case True
  then have "length (alternatives
      (ilike ''title'' (wildcards s) @ 44 # ilike ''location'' (wildcards s))) \<noteq> 2"
    using count_list_pos[of 44 s] by (simp add: or_text_length)
  then show ?thesis using True by auto
next
  case False
  then show ?thesis
    by (simp add: or_text_alternatives alternatives_whole ilike_no_comma)
qed

lemma text_calls:
  "filter is_text_call (fetchEvents_query tz now fs) =
     (if trim (searchText fs) = [] then []
      else [Or (ilike ''title'' (wildcards (trim (searchText fs))) @ 44 #
                ilike ''location'' (wildcards (trim (searchText fs))))])"
  by (simp add: fetchEvents_query_def Let_def text_column_def ilike_def wildcards_def units_def
      split: option.split)

text \<open>
  White space, as \<open>trim\<close> knows it: a search text of blanks only, among them the no-break
  space, the line separator, the ideographic space and the byte order mark, trims to the
  empty text and the query has no text predicate; blanks around a term are removed and
  blanks inside it are kept; the zero-width space (code unit 8203) and the next-line
  character (133) are not white space.
\<close>

lemma blank_search:
  "trim [32, 9, 10, 11, 12, 13, 160, 5760, 8192, 8202, 8232, 8233, 8239, 8287, 12288, 65279] = []
   \<and> filter is_text_call (fetchEvents_query tz now
        \<lparr>searchText = [32, 160, 8232, 12288, 65279, 9], activeFilter = k\<rparr>) = []
   \<and> trim (160 # 32 # units ''jazz night'' @ [9, 8233]) = units ''jazz night''
   \<and> trim [8203] = [8203] \<and> trim [133, 32] = [133]"
proof -
  have "trim [32, 160, 8232, 12288, 65279, 9] = []"
    by (simp add: trim_def is_ws_def)
  then have "filter is_text_call (fetchEvents_query tz now
        \<lparr>searchText = [32, 160, 8232, 12288, 65279, 9], activeFilter = k\<rparr>) = []"
    by (simp add: text_calls)
  moreover have "trim [32, 9, 10, 11, 12, 13, 160, 5760, 8192, 8202, 8232, 8233, 8239, 8287,
      12288, 65279] = []"
    by (simp add: trim_def is_ws_def)
  moreover have "trim (160 # 32 # units ''jazz night'' @ [9, 8233]) = units ''jazz night''"
    by (simp add: trim_def is_ws_def units_def)
  moreover have "trim [8203] = [8203] \<and> trim [133, 32] = [133]"
    by (simp add: trim_def is_ws_def)
  ultimately show ?thesis by simp
qed

lemma white_space_units:
  "filter is_ws [8, 9, 10, 11, 12, 13, 14, 31, 32, 33, 133, 159, 160, 161, 5759, 5760, 5761,
     6158, 8191, 8192, 8193, 8194, 8195, 8196, 8197, 8198, 8199, 8200, 8201, 8202, 8203, 8231,
     8232, 8233, 8234, 8238, 8239, 8240, 8286, 8287, 8288, 12287, 12288, 12289, 65278, 65279,
     65280]
   = [9, 10, 11, 12, 13, 32, 160, 5760, 8192, 8193, 8194, 8195, 8196, 8197, 8198, 8199, 8200,
      8201, 8202, 8232, 8233, 8239, 8287, 12288, 65279]"
  by (simp add: is_ws_def)

text \<open>
  Claim C4, as the code has it. The text predicates of the query composed by \<open>fetchEvents\<close>:
  none when the trimmed search text is empty; otherwise exactly one \<open>Or\<close> filter, whose text
  is \<open>title.ilike.%term%,location.ilike.%term%\<close> with the trimmed search text as the term.
  The trimmed text is the search text without a leading and a trailing run of white
  space, and neither begins nor ends with white space. Read as the filter syntax has it,
  cut at every comma, the text holds two alternatives for every comma of the term beyond
  the two intended: it is the \<open>ILIKE\<close> on title and the \<open>ILIKE\<close> on location, each with the
  pattern \<open>%term%\<close>, exactly when the term holds no comma. For the search text \<open>a,b\<close> the
  filter text is \<open>title.ilike.%a,b%,location.ilike.%a,b%\<close>, which reads as the four
  alternatives \<open>title.ilike.%a\<close>, \<open>b%\<close>, \<open>location.ilike.%a\<close> and \<open>b%\<close>: not the two
  predicates on title and on location with the pattern \<open>%a,b%\<close>.
\<close>

theorem fetchEvents_query_text_predicate:
  "filter is_text_call (fetchEvents_query tz now fs) =
     (if trim (searchText fs) = [] then []
      else [Or (ilike ''title'' (wildcards (trim (searchText fs))) @ 44 #
                ilike ''location'' (wildcards (trim (searchText fs))))])
   \<and> ilike ''title'' (wildcards s) @ 44 # ilike ''location'' (wildcards s)
       = units ''title.ilike.%'' @ s @ units ''%,location.ilike.%'' @ s @ units ''%''
   \<and> (alternatives (ilike ''title'' (wildcards s) @ 44 # ilike ''location'' (wildcards s))
        = [ilike ''title'' (wildcards s), ilike ''location'' (wildcards s)]) = (44 \<notin> set s)
   \<and> length (alternatives (ilike ''title'' (wildcards s) @ 44 # ilike ''location'' (wildcards s)))
        = 2 + 2 * count_list s 44
   \<and> filter is_text_call (fetchEvents_query tz now \<lparr>searchText = units ''a,b'', activeFilter = k\<rparr>)
        = [Or (units ''title.ilike.%a,b%,location.ilike.%a,b%'')]
   \<and> alternatives (units ''title.ilike.%a,b%,location.ilike.%a,b%'')
        = [units ''title.ilike.%a'', units ''b%'', units ''location.ilike.%a'', units ''b%'']
   \<and> filter is_text_call (fetchEvents_query tz now
        \<lparr>searchText = [32, 160, 8232, 12288, 65279, 9], activeFilter = k\<rparr>) = []
   \<and> (\<exists>a b. searchText fs = a @ trim (searchText fs) @ b \<and> list_all is_ws a \<and> list_all is_ws b)
   \<and> (trim (searchText fs) = []
        \<or> (\<not> is_ws (hd (trim (searchText fs))) \<and> \<not> is_ws (last (trim (searchText fs)))))"
proof -
  have rendered: "ilike ''title'' (wildcards s) @ 44 # ilike ''location'' (wildcards s)
       = units ''title.ilike.%'' @ s @ units ''%,location.ilike.%'' @ s @ units ''%''"
    by (simp add: ilike_def wildcards_def units_def)
  have trimmed: "trim (units ''a,b'') = units ''a,b''"
    by (simp add: trim_def is_ws_def units_def)
  have failing: "filter is_text_call
        (fetchEvents_query tz now \<lparr>searchText = units ''a,b'', activeFilter = k\<rparr>)
        = [Or (units ''title.ilike.%a,b%,location.ilike.%a,b%'')]"
    by (simp add: text_calls trimmed) (simp add: ilike_def wildcards_def units_def)
  have pieces: "alternatives (units ''title.ilike.%a,b%,location.ilike.%a,b%'')
        = [units ''title.ilike.%a'', units ''b%'', units ''location.ilike.%a'', units ''b%'']"
    by (simp add: units_def)
  have blank: "filter is_text_call (fetchEvents_query tz now
        \<lparr>searchText = [32, 160, 8232, 12288, 65279, 9], activeFilter = k\<rparr>) = []"
    using blank_search[of tz now k] by simp
  show ?thesis
    using text_calls[of tz now fs] rendered or_text_two[of s] or_text_length[of s] failing pieces
      blank trim_parts[of "searchText fs"] trim_ends[of "searchText fs"]
    by (intro conjI)
qed

section \<open>Status restriction and ordering of the event query\<close>

lemma limit_rows_take: "\<exists>n. limit_rows q rs = take n rs"
proof (induction q rs rule: limit_rows.induct)
  case (1 rs)
  have "limit_rows [] rs = take (length rs) rs" by simp
  then show ?case by blast
qed auto

lemma mset_order_rows: "mset (order_rows C c rs) = mset rs"
  by (cases c) simp_all

lemma mset_foldr_order_rows: "mset (foldr (order_rows C) q rs) = mset rs"
  by (induction q) (simp_all add: mset_order_rows)

lemma set_foldr_order_rows: "set (foldr (order_rows C) q rs) = set rs"
  using mset_foldr_order_rows[of C q rs] by (metis set_mset_mset)

lemma run_query_member:
  assumes "r \<in> set (run_query C orf q table)"
  shows "r \<in> set table \<and> list_all (\<lambda>c. passes C orf c r) q"
proof -
  obtain n where n: "limit_rows q (foldr (order_rows C) q
      (filter (\<lambda>r. list_all (\<lambda>c. passes C orf c r) q) table))
    = take n (foldr (order_rows C) q (filter (\<lambda>r. list_all (\<lambda>c. passes C orf c r) q) table))"
    using limit_rows_take by blast
  from assms have "r \<in> set (foldr (order_rows C) q
      (filter (\<lambda>r. list_all (\<lambda>c. passes C orf c r) q) table))"
    unfolding run_query_def n by (rule in_set_takeD)
  then show ?thesis by (simp add: set_foldr_order_rows)
qed

lemma fetchEvents_query_order:
  "foldr (order_rows C) (fetchEvents_query tz now fs) rs
     = sort_key (order_key C ''start_time'' True) rs"
  by (simp add: fetchEvents_query_def Let_def split: option.split)

lemma fetchEvents_query_limit: "limit_rows (fetchEvents_query tz now fs) rs = rs"
  by (simp add: fetchEvents_query_def Let_def split: option.split)

lemma run_fetchEvents_query:
  "run_query C orf (fetchEvents_query tz now fs) table =
     sort_key (order_key C ''start_time'' True)
       (filter (\<lambda>r. list_all (\<lambda>c. passes C orf c r) (fetchEvents_query tz now fs)) table)"
  by (simp add: run_query_def fetchEvents_query_order fetchEvents_query_limit)

lemma status_call_in_query:
  "In ''status'' [''approved'', ''pending''] \<in> set (fetchEvents_query tz now fs)"
  by (simp add: fetchEvents_query_def Let_def split: option.split)

lemma gte_call_in_query:
  "\<exists>t. Gte ''start_time'' t \<in> set (fetchEvents_query tz now fs)"
  by (cases "buildTimeRange tz now (activeFilter fs)")
     (auto simp add: fetchEvents_query_def Let_def)

lemma passes_status: "passes event_columns orf (In ''status'' [''approved'', ''pending'']) r = shown_status r"
  by (auto simp add: event_columns_def shown_status_def split: option.split)

lemma passes_gte: "passes event_columns orf (Gte ''start_time'' t) r = starts_from t r"
  by (simp add: event_columns_def starts_from_def)

lemma kept_row:
  assumes "list_all (\<lambda>c. passes event_columns orf c r) (fetchEvents_query tz now fs)"
  shows "shown_status r \<and> er_start_time r \<noteq> None"
proof -
  from assms status_call_in_query[of tz now fs]
  have "passes event_columns orf (In ''status'' [''approved'', ''pending'']) r"
    unfolding list_all_iff by blast
  then have s: "shown_status r" by (simp only: passes_status)
  obtain t where "Gte ''start_time'' t \<in> set (fetchEvents_query tz now fs)"
    using gte_call_in_query by blast
  with assms have "passes event_columns orf (Gte ''start_time'' t) r"
    unfolding list_all_iff by blast
  then have "starts_from t r" by (simp only: passes_gte)
  then have "er_start_time r \<noteq> None"
    by (auto simp add: starts_from_def split: option.splits)
  with s show ?thesis by simp
qed

lemma result_row:
  assumes "r \<in> set (run_query event_columns orf (fetchEvents_query tz now fs) table)"
  shows "shown_status r \<and> er_start_time r \<noteq> None"
proof -
  from run_query_member[OF assms]
  have "list_all (\<lambda>c. passes event_columns orf c r) (fetchEvents_query tz now fs)"
    by simp
  then show ?thesis by (rule kept_row)
qed

lemma order_key_start_time_le:
  assumes "er_start_time a \<noteq> None" "er_start_time b \<noteq> None"
    and "order_key event_columns ''start_time'' True a \<le> order_key event_columns ''start_time'' True b"
  shows "start_time_le a b"
  using assms by (auto simp add: order_key_def event_columns_def start_time_le_def)

lemma result_sorted:
  "sorted_wrt start_time_le (run_query event_columns orf (fetchEvents_query tz now fs) table)"
proof -
  let ?k = "order_key event_columns ''start_time'' True :: 'a EventRow_scheme \<Rightarrow> int \<times> int"
  let ?res = "run_query event_columns orf (fetchEvents_query tz now fs) table"
  have "sorted (map ?k ?res)"
    unfolding run_fetchEvents_query by (rule sorted_sort_key)
  then have s: "sorted_wrt (\<lambda>a b. ?k a \<le> ?k b) ?res"
    by (simp add: sorted_map)
  have "start_time_le a b" if "a \<in> set ?res" "b \<in> set ?res" "?k a \<le> ?k b" for a b
    using result_row[OF that(1)] result_row[OF that(2)] that(3)
    by (simp add: order_key_start_time_le)
  with s show ?thesis
    using sorted_wrt_mono_rel[of ?res "\<lambda>a b. ?k a \<le> ?k b" start_time_le] by blast
qed

lemma result_status:
  "list_all shown_status (run_query event_columns orf (fetchEvents_query tz now fs) table)"
  unfolding list_all_iff using result_row by blast

lemma default_query:
  "fetchEvents_query tz now \<lparr>searchText = [], activeFilter = All_key\<rparr> =
     [From ''event_submissions'', Select ''*'', In ''status'' [''approved'', ''pending''],
      Gte ''start_time'' now, Order ''start_time'' True]"
  by (simp add: fetchEvents_query_def buildTimeRange_def trim_def)

lemma default_result:
  "mset (run_query event_columns orf
           (fetchEvents_query tz now \<lparr>searchText = [], activeFilter = All_key\<rparr>) table)
   = mset (filter (\<lambda>r. shown_status r \<and> starts_from now r) table)"
proof -
  have "(\<lambda>r. list_all (\<lambda>c. passes event_columns orf c r)
          (fetchEvents_query tz now \<lparr>searchText = [], activeFilter = All_key\<rparr>))
      = (\<lambda>r. shown_status r \<and> starts_from now r)"
    unfolding default_query
    by (simp only: list.pred_inject passes_status passes_gte) simp
  then show ?thesis
    by (simp add: run_fetchEvents_query)
qed

lemma status_calls:
  "filter is_status_call (fetchEvents_query tz now fs) = [In ''status'' [''approved'', ''pending'']]"
  by (simp add: fetchEvents_query_def Let_def split: option.split)

lemma order_calls:
  "filter is_order_call (fetchEvents_query tz now fs) = [Order ''start_time'' True]"
  by (simp add: fetchEvents_query_def Let_def split: option.split)

lemma default_example:
  "run_query event_columns orf
     (fetchEvents_query tz 50 \<lparr>searchText = [], activeFilter = All_key\<rparr>)
     [event_row ''1'' ''pending'' 300, event_row ''2'' ''approved'' 200,
      event_row ''3'' ''rejected'' 100]
   = [event_row ''2'' ''approved'' 200, event_row ''1'' ''pending'' 300]"
  unfolding default_query
  by (simp add: run_query_def event_columns_def event_row_def order_key_def)

text \<open>
  Claim C5. For every filter state the query composed by \<open>fetchEvents\<close> has exactly one
  status predicate, \<open>status in (approved, pending)\<close>, and exactly one ordering, ascending
  by \<open>start_time\<close>. Whatever the table and the reading of the text filter, every row the
  backend returns for it has status approved or pending, and the rows come in ascending
  order of start time. For the default filter state (no search text, key \<open>all\<close>) the
  returned rows are exactly the approved and pending rows that start at \<open>now\<close> or later;
  of a pending, an approved and a rejected row in the future, the approved and the
  pending one are returned, earliest first.
\<close>

theorem fetchEvents_query_status_and_order:
  "filter is_status_call (fetchEvents_query tz now fs)
     = [In ''status'' [''approved'', ''pending'']]
   \<and> filter is_order_call (fetchEvents_query tz now fs) = [Order ''start_time'' True]
   \<and> list_all shown_status (run_query event_columns orf (fetchEvents_query tz now fs) table)
   \<and> sorted_wrt start_time_le (run_query event_columns orf (fetchEvents_query tz now fs) table)
   \<and> mset (run_query event_columns orf
             (fetchEvents_query tz now \<lparr>searchText = [], activeFilter = All_key\<rparr>) table)
       = mset (filter (\<lambda>r. shown_status r \<and> starts_from now r) table)
   \<and> run_query event_columns orf'
        (fetchEvents_query tz 50 \<lparr>searchText = [], activeFilter = All_key\<rparr>)
        [event_row ''1'' ''pending'' 300, event_row ''2'' ''approved'' 200,
         event_row ''3'' ''rejected'' 100]
       = [event_row ''2'' ''approved'' 200, event_row ''1'' ''pending'' 300]"
  using status_calls[of tz now fs] order_calls[of tz now fs]
    result_status[of orf tz now fs table] result_sorted[of orf tz now fs table]
    default_result[of orf tz now table] default_example[of orf' tz]
  by (intro conjI)

section \<open>Normalisation of rows\<close>

lemma normalizeTag_Str:
  "normalizeTag toLowerCase t = Str (tag_text (normalizeTag toLowerCase t))"
  by (cases t) simp_all

lemma normalizeTag_fixed: "(normalizeTag toLowerCase t = t) = lowercase_tag toLowerCase t"
  by (cases t) simp_all

lemma map_normalizeTag_fixed:
  "(map (normalizeTag toLowerCase) ts = ts) = list_all (lowercase_tag toLowerCase) ts"
  by (induction ts) (simp_all add: normalizeTag_fixed)

lemma normalizeRow_fixed:
  "(normalizeRow toLowerCase r = r)
     = (case er_tags r of None \<Rightarrow> False | Some ts \<Rightarrow> list_all (lowercase_tag toLowerCase) ts)"
proof (cases "er_tags r")
  case None
  have "er_tags (normalizeRow toLowerCase r) \<noteq> None" by (simp add: normalizeRow_def)
  then have "normalizeRow toLowerCase r \<noteq> r" using None by auto
  then show ?thesis using None by simp
next
  case (Some ts)
  have "normalizeRow toLowerCase r = r\<lparr>er_tags := Some (map (normalizeTag toLowerCase) ts)\<rparr>"
    using Some by (simp add: normalizeRow_def)
  moreover have "(r\<lparr>er_tags := Some (map (normalizeTag toLowerCase) ts)\<rparr> = r)
      = (map (normalizeTag toLowerCase) ts = ts)"
  proof
    assume "r\<lparr>er_tags := Some (map (normalizeTag toLowerCase) ts)\<rparr> = r"
    then have "er_tags (r\<lparr>er_tags := Some (map (normalizeTag toLowerCase) ts)\<rparr>) = er_tags r"
      by simp
    then show "map (normalizeTag toLowerCase) ts = ts" using Some by simp
  next
    assume "map (normalizeTag toLowerCase) ts = ts"
    then show "r\<lparr>er_tags := Some (map (normalizeTag toLowerCase) ts)\<rparr> = r"
      using Some by simp
  qed
  ultimately show ?thesis using Some by (simp add: map_normalizeTag_fixed)
qed

lemma derived_time_again:
  "derived_time f start (derived_time f start other) = derived_time f start other"
  by (simp add: derived_time_def split: option.split)

lemma normalizeUpcoming_fixed:
  "(normalizeUpcoming f ev = ev) = normalized_item f ev"
  by (cases ev) (auto simp add: normalizeUpcoming_def normalized_item_def)

lemma normalizeUpcoming_normalized: "normalized_item f (normalizeUpcoming f ev)"
  by (simp add: normalizeUpcoming_def normalized_item_def derived_time_again)

lemma normalizeUpcoming_idem:
  "normalizeUpcoming f (normalizeUpcoming f ev) = normalizeUpcoming f ev"
  using normalizeUpcoming_normalized[of f ev] by (simp only: normalizeUpcoming_fixed)

lemma ascii_lower_fixed:
  "(ascii_lower s = s) = list_all (\<lambda>c. \<not> (65 \<le> c \<and> c \<le> 90)) s"
  by (induction s) (auto simp add: ascii_lower_def ascii_lower_unit_def)

lemma normalizeRow_example:
  "er_tags (normalizeRow toLowerCase (r\<lparr>er_tags := Some [Str s, NonStr u]\<rparr>))
     = Some [Str (toLowerCase s), Str u]"
  by (simp add: normalizeRow_def)

text \<open>
  Claim C7. Normalising a normalised row changes nothing, whatever the case mapping
  \<open>toLowerCase\<close> and the date rendering \<open>toLocaleString\<close> of the engine. For the Explore
  screen: a row whose tag list is present and holds only strings in lower case (strings
  that \<open>toLowerCase\<close> leaves as they are) is returned as it is, and these are the only rows
  returned as they are. For the upcoming list of the home screen: an item whose time is
  the one derived from its start time, whose category is its first tag and which has none
  of the fields the normalisation leaves out is returned as it is, and these are the only
  such items; every result of the normalisation is of that kind, so normalising it again
  gives it again. The normalisation does lower: of the tags \<open>s\<close> (a string) and \<open>u\<close> (not
  a string) it makes \<open>toLowerCase s\<close> and the text of \<open>u\<close>.
\<close>

theorem normalize_idempotent:
  assumes "er_tags r = Some ts" and "list_all (lowercase_tag toLowerCase) ts"
    and "normalized_item toLocaleString ev"
  shows "normalizeRow toLowerCase r = r
    \<and> normalizeUpcoming toLocaleString ev = ev
    \<and> (normalizeRow toLowerCase r' = r')
        = (case er_tags r' of None \<Rightarrow> False
           | Some ts' \<Rightarrow> list_all (lowercase_tag toLowerCase) ts')
    \<and> (normalizeUpcoming toLocaleString ev' = ev') = normalized_item toLocaleString ev'
    \<and> normalized_item toLocaleString (normalizeUpcoming toLocaleString ev')
    \<and> normalizeUpcoming toLocaleString (normalizeUpcoming toLocaleString ev')
        = normalizeUpcoming toLocaleString ev'
    \<and> er_tags (normalizeRow toLowerCase (r'\<lparr>er_tags := Some [Str s, NonStr u]\<rparr>))
        = Some [Str (toLowerCase s), Str u]"
proof -
  from assms(1,2) have "normalizeRow toLowerCase r = r"
    by (simp add: normalizeRow_fixed)
  moreover from assms(3) have "normalizeUpcoming toLocaleString ev = ev"
    by (simp only: normalizeUpcoming_fixed)
  ultimately show ?thesis
    using normalizeRow_fixed[of toLowerCase r'] normalizeUpcoming_fixed[of toLocaleString ev']
      normalizeUpcoming_normalized[of toLocaleString ev']
      normalizeUpcoming_idem[of toLocaleString ev']
      normalizeRow_example[where toLowerCase=toLowerCase and r=r' and s=s and u=u]
    by (intro conjI)
qed

theorem normalize_idempotent_witness:
  "normalizeRow ascii_lower
     ((event_row ''7'' ''approved'' 100)\<lparr>er_tags := Some [Str (units ''tech''), Str (units ''ai-2'')]\<rparr>)
    = (event_row ''7'' ''approved'' 100)\<lparr>er_tags := Some [Str (units ''tech''), Str (units ''ai-2'')]\<rparr>
   \<and> normalizeUpcoming (\<lambda>s. ''5/10/2024, 1:00:00 PM'')
       ((event_item ''7'')\<lparr>ei_start_time := Some ''2024-05-10T13:00:00+00:00'',
                             ei_time := Some ''5/10/2024, 1:00:00 PM'',
                             ei_tags := Some [''tech'', ''ai''], ei_category := Some ''tech''\<rparr>)
    = (event_item ''7'')\<lparr>ei_start_time := Some ''2024-05-10T13:00:00+00:00'',
                             ei_time := Some ''5/10/2024, 1:00:00 PM'',
                             ei_tags := Some [''tech'', ''ai''], ei_category := Some ''tech''\<rparr>"
proof -
  have a: "er_tags ((event_row ''7'' ''approved'' 100)
      \<lparr>er_tags := Some [Str (units ''tech''), Str (units ''ai-2'')]\<rparr>)
     = Some [Str (units ''tech''), Str (units ''ai-2'')]" by simp
  have b: "list_all (lowercase_tag ascii_lower) [Str (units ''tech''), Str (units ''ai-2'')]"
    by (simp add: ascii_lower_def ascii_lower_unit_def units_def)
  have c: "normalized_item (\<lambda>s. ''5/10/2024, 1:00:00 PM'')
       ((event_item ''7'')\<lparr>ei_start_time := Some ''2024-05-10T13:00:00+00:00'',
                             ei_time := Some ''5/10/2024, 1:00:00 PM'',
                             ei_tags := Some [''tech'', ''ai''], ei_category := Some ''tech''\<rparr>)"
    by (simp add: normalized_item_def event_item_def derived_time_def first_category_def)
  show ?thesis using normalize_idempotent[OF a b c] by (intro conjI) blast+
qed

lemma normalizeRow_tags_strings: "\<exists>ss. er_tags (normalizeRow toLowerCase r) = Some (map Str ss)"
proof -
  define ts where "ts = (case er_tags r of None \<Rightarrow> [] | Some ts \<Rightarrow> ts)"
  have "map (normalizeTag toLowerCase) ts = map Str (map (\<lambda>t. tag_text (normalizeTag toLowerCase t)) ts)"
    using normalizeTag_Str by (induction ts) simp_all
  then have "er_tags (normalizeRow toLowerCase r) = Some (map Str (map (\<lambda>t. tag_text (normalizeTag toLowerCase t)) ts))"
    by (simp add: normalizeRow_def ts_def)
  then show ?thesis by blast
qed

text \<open>
  Claim C10. The normalisation of the Explore screen returns the row with every field but
  \<open>tags\<close> as it was, the fields beyond the interface included. The new \<open>tags\<close> is always
  a list of strings, as long as the old list; a null or missing list becomes the empty
  list. So the first-tag read of the rendered list never meets a null tag list.
\<close>

theorem normalizeRow_frame:
  "er_id (normalizeRow toLowerCase r) = er_id r
   \<and> er_title (normalizeRow toLowerCase r) = er_title r
   \<and> er_description (normalizeRow toLowerCase r) = er_description r
   \<and> er_start_time (normalizeRow toLowerCase r) = er_start_time r
   \<and> er_end_time (normalizeRow toLowerCase r) = er_end_time r
   \<and> er_location (normalizeRow toLowerCase r) = er_location r
   \<and> er_status (normalizeRow toLowerCase r) = er_status r
   \<and> er_created_at (normalizeRow toLowerCase r) = er_created_at r
   \<and> EventRow.more (normalizeRow toLowerCase r) = EventRow.more r
   \<and> normalizeRow toLowerCase r = r\<lparr>er_tags := er_tags (normalizeRow toLowerCase r)\<rparr>
   \<and> (\<exists>ss. er_tags (normalizeRow toLowerCase r) = Some (map Str ss))
   \<and> er_tags (normalizeRow toLowerCase (r\<lparr>er_tags := None\<rparr>)) = Some []
   \<and> er_tags (normalizeRow toLowerCase (r\<lparr>er_tags := Some ts\<rparr>)) = Some (map (normalizeTag toLowerCase) ts)
   \<and> length (map (normalizeTag toLowerCase) ts) = length ts
   \<and> firstTag (normalizeRow toLowerCase r) \<noteq> NullTagList"
proof -
  have "firstTag (normalizeRow toLowerCase r) \<noteq> NullTagList"
    by (simp add: firstTag_def normalizeRow_def split: list.split)
  then show ?thesis
    using normalizeRow_tags_strings[where toLowerCase=toLowerCase and r=r]
    by (simp add: normalizeRow_def)
qed

section \<open>The realtime refetch of the Explore screen\<close>

lemma realtime_rows:
  "on_postgres_changes toLowerCase tz now fs (Resolved d None) st =
     Return (st\<lparr>events := map (normalizeRow toLowerCase) (case d of None \<Rightarrow> [] | Some rows \<Rightarrow> rows),
               trace := trace st @
                 [Await (fetchEvents_query tz now fs),
                  SetEvents (map (normalizeRow toLowerCase)
                               (case d of None \<Rightarrow> [] | Some rows \<Rightarrow> rows))]\<rparr>)"
  by (simp add: on_postgres_changes_def fetchEvents_def fetchEvents_try_def Let_def bypass_def
      setEvents_def console_def)

lemma realtime_error:
  "on_postgres_changes toLowerCase tz now fs (Resolved d (Some err)) st =
     Return (st\<lparr>events := [],
               trace := trace st @
                 [Await (fetchEvents_query tz now fs), ConsoleWarn, SetEvents []]\<rparr>)"
  by (simp add: on_postgres_changes_def fetchEvents_def fetchEvents_try_def Let_def bypass_def
      setEvents_def console_def)

lemma realtime_rejected:
  "on_postgres_changes toLowerCase tz now fs (Rejected e) st =
     Return (st\<lparr>events := [],
               trace := trace st @
                 [Await (fetchEvents_query tz now fs), ConsoleError, SetEvents []]\<rparr>)"
  by (simp add: on_postgres_changes_def fetchEvents_def fetchEvents_try_def Let_def bypass_def
      setEvents_def console_def)

lemma ordinary_rows:
  "fetchEvents toLowerCase tz now fs None (Resolved d None) st =
     Return (st\<lparr>events := map (normalizeRow toLowerCase) (case d of None \<Rightarrow> [] | Some rows \<Rightarrow> rows),
               loading := False,
               trace := trace st @
                 [SetLoading True, Await (fetchEvents_query tz now fs),
                  SetEvents (map (normalizeRow toLowerCase)
                               (case d of None \<Rightarrow> [] | Some rows \<Rightarrow> rows)),
                  SetLoading False]\<rparr>)"
  by (simp add: fetchEvents_def fetchEvents_try_def Let_def bypass_def
      setEvents_def console_def setLoading_def)

lemma ordinary_events:
  "events (state_of (fetchEvents toLowerCase tz now fs None resp st)) =
     (case resp of
        Resolved d None \<Rightarrow> map (normalizeRow toLowerCase) (case d of None \<Rightarrow> [] | Some rows \<Rightarrow> rows)
      | Resolved d (Some err) \<Rightarrow> []
      | Rejected e \<Rightarrow> [])"
  by (simp add: fetchEvents_def fetchEvents_try_def Let_def bypass_def
      setEvents_def console_def setLoading_def split: response.split option.split)

lemma realtime_refetch_trace:
  "\<exists>new. on_postgres_changes toLowerCase tz now fs resp st =
      Return (st\<lparr>events := events (state_of (fetchEvents toLowerCase tz now fs None resp st)),
                trace := trace st @ new\<rparr>)
    \<and> filter is_SetLoading new = []
    \<and> filter is_Await new = [Await (fetchEvents_query tz now fs)]"
proof -
  let ?q = "fetchEvents_query tz now fs"
  let ?P = "\<lambda>new. on_postgres_changes toLowerCase tz now fs resp st =
      Return (st\<lparr>events := events (state_of (fetchEvents toLowerCase tz now fs None resp st)),
                trace := trace st @ new\<rparr>)
    \<and> filter is_SetLoading new = []
    \<and> filter is_Await new = [Await ?q]"
  show ?thesis
  proof (cases resp)
    case (Rejected e)
    then have "?P [Await ?q, ConsoleError, SetEvents []]"
      by (simp add: realtime_rejected ordinary_events)
    then show ?thesis by (rule exI)
  next
    case (Resolved d err)
    show ?thesis
    proof (cases err)
      case None
      with Resolved
      have "?P [Await ?q, SetEvents (map (normalizeRow toLowerCase)
                                      (case d of None \<Rightarrow> [] | Some rows \<Rightarrow> rows))]"
        by (simp add: realtime_rows ordinary_events)
      then show ?thesis by (rule exI)
    next
      case (Some x)
      with Resolved have "?P [Await ?q, ConsoleWarn, SetEvents []]"
        by (simp add: realtime_error ordinary_events)
      then show ?thesis by (rule exI)
    qed
  qed
qed

text \<open>
  Claim C8. Whatever the change notified on \<open>event_submissions\<close> and whatever the backend
  answers, the handler's call \<open>fetchEvents({ bypassLoading: true })\<close> completes normally
  and leaves the state as it was except for the event list, which becomes what a fetch
  without the option would have set; the steps it adds to the trace hold no call of
  \<open>setLoading\<close>, so the loading flag keeps its value throughout, and exactly one awaited
  query, the one composed from the current filter state. Step by step: when the backend
  answers with rows, the handler awaits the query and sets the event list to the
  normalised rows (to the empty list when the data is null); on an error answer it awaits
  the query, writes a warning and sets the empty list; when the query throws it awaits,
  writes an error and sets the empty list. A fetch without the option does the same
  between \<open>setLoading(true)\<close> and \<open>setLoading(false)\<close>.
\<close>

theorem realtime_refetch_bypasses_loading:
  "(\<exists>new. on_postgres_changes toLowerCase tz now fs resp st =
        Return (st\<lparr>events := events (state_of (fetchEvents toLowerCase tz now fs None resp st)),
                  trace := trace st @ new\<rparr>)
      \<and> filter is_SetLoading new = []
      \<and> filter is_Await new = [Await (fetchEvents_query tz now fs)])
   \<and> loading (state_of (on_postgres_changes toLowerCase tz now fs resp st)) = loading st
   \<and> on_postgres_changes toLowerCase tz now fs (Resolved d None) st =
       Return (st\<lparr>events := map (normalizeRow toLowerCase)
                                (case d of None \<Rightarrow> [] | Some rows \<Rightarrow> rows),
                 trace := trace st @
                   [Await (fetchEvents_query tz now fs),
                    SetEvents (map (normalizeRow toLowerCase)
                                 (case d of None \<Rightarrow> [] | Some rows \<Rightarrow> rows))]\<rparr>)
   \<and> on_postgres_changes toLowerCase tz now fs (Resolved d (Some err)) st =
       Return (st\<lparr>events := [],
                 trace := trace st @
                   [Await (fetchEvents_query tz now fs), ConsoleWarn, SetEvents []]\<rparr>)
   \<and> on_postgres_changes toLowerCase tz now fs (Rejected e) st =
       Return (st\<lparr>events := [],
                 trace := trace st @
                   [Await (fetchEvents_query tz now fs), ConsoleError, SetEvents []]\<rparr>)
   \<and> fetchEvents toLowerCase tz now fs None (Resolved d None) st =
       Return (st\<lparr>events := map (normalizeRow toLowerCase)
                                (case d of None \<Rightarrow> [] | Some rows \<Rightarrow> rows),
                 loading := False,
                 trace := trace st @
                   [SetLoading True, Await (fetchEvents_query tz now fs),
                    SetEvents (map (normalizeRow toLowerCase)
                                 (case d of None \<Rightarrow> [] | Some rows \<Rightarrow> rows)),
                    SetLoading False]\<rparr>)"
proof -
  obtain new where new: "on_postgres_changes toLowerCase tz now fs resp st =
        Return (st\<lparr>events := events (state_of (fetchEvents toLowerCase tz now fs None resp st)),
                  trace := trace st @ new\<rparr>)"
      "filter is_SetLoading new = []"
      "filter is_Await new = [Await (fetchEvents_query tz now fs)]"
    using realtime_refetch_trace[of toLowerCase tz now fs resp st] by blast
  from new(1)
  have keep: "loading (state_of (on_postgres_changes toLowerCase tz now fs resp st)) = loading st"
    by simp
  have first: "\<exists>new. on_postgres_changes toLowerCase tz now fs resp st =
        Return (st\<lparr>events := events (state_of (fetchEvents toLowerCase tz now fs None resp st)),
                  trace := trace st @ new\<rparr>)
      \<and> filter is_SetLoading new = []
      \<and> filter is_Await new = [Await (fetchEvents_query tz now fs)]"
    using new by blast
  show ?thesis
    using first keep realtime_rows[of toLowerCase tz now fs d st]
      realtime_error[of toLowerCase tz now fs d err st]
      realtime_rejected[of toLowerCase tz now fs e st]
      ordinary_rows[of toLowerCase tz now fs d st]
    by (intro conjI)
qed

section \<open>Errors of the background fetches\<close>

lemma fetchEvents_returns: "\<exists>s. fetchEvents toLowerCase tz now fs opts resp st = Return s"
  by (cases resp) (auto simp add: fetchEvents_def fetchEvents_try_def Let_def split: option.split)

lemma fetchEvents_rejected:
  "fetchEvents toLowerCase tz now fs opts (Rejected e) st =
     Return (st\<lparr>events := [],
               loading := (if bypass opts then loading st else False),
               trace := trace st @ (if bypass opts then [] else [SetLoading True])
                  @ [Await (fetchEvents_query tz now fs), ConsoleError, SetEvents []]
                  @ (if bypass opts then [] else [SetLoading False])\<rparr>)"
  by (simp add: fetchEvents_def fetchEvents_try_def Let_def setEvents_def console_def
      setLoading_def)

lemma fetchEvents_error:
  "fetchEvents toLowerCase tz now fs opts (Resolved d (Some err)) st =
     Return (st\<lparr>events := [],
               loading := (if bypass opts then loading st else False),
               trace := trace st @ (if bypass opts then [] else [SetLoading True])
                  @ [Await (fetchEvents_query tz now fs), ConsoleWarn, SetEvents []]
                  @ (if bypass opts then [] else [SetLoading False])\<rparr>)"
  by (simp add: fetchEvents_def fetchEvents_try_def Let_def setEvents_def console_def
      setLoading_def)

lemma loadUpcoming_returns: "\<exists>s. loadUpcoming f mounted resp st = Return s"
  by (cases resp) (auto simp add: loadUpcoming_def loadUpcoming_try_def Let_def split: option.split)

lemma loadUpcoming_rejected:
  "loadUpcoming f mounted (Rejected e) st =
     Return (st\<lparr>upcomingEvents := (if mounted then [] else upcomingEvents st),
               loadingUpcoming := \<not> mounted,
               console_lines := console_lines st @ [ConsoleLogLine, ConsoleErrorLine]\<rparr>)"
  by (simp add: loadUpcoming_def loadUpcoming_try_def Let_def setUpcomingEvents_def
      console_line_def)

lemma loadUpcoming_error:
  "loadUpcoming f mounted (Resolved d (Some err)) st =
     Return (st\<lparr>upcomingEvents := (if mounted then [] else upcomingEvents st),
               loadingUpcoming := \<not> mounted,
               console_lines := console_lines st @ [ConsoleLogLine, ConsoleWarnLine]\<rparr>)"
  by (simp add: loadUpcoming_def loadUpcoming_try_def Let_def setUpcomingEvents_def
      console_line_def)

lemma loadUpcoming_rows:
  "loadUpcoming f mounted (Resolved d None) st =
     Return (st\<lparr>upcomingEvents :=
                 (if mounted then map (normalizeUpcoming f) (case d of None \<Rightarrow> [] | Some x \<Rightarrow> x)
                  else upcomingEvents st),
               loadingUpcoming := \<not> mounted,
               console_lines := console_lines st @ [ConsoleLogLine, ConsoleLogLine]\<rparr>)"
  by (simp add: loadUpcoming_def loadUpcoming_try_def Let_def setUpcomingEvents_def
      console_line_def)

lemma loadTrending_returns: "\<exists>s. loadTrending f mounted v er rr st = Return s"
  by (cases v; cases "promise_all er rr")
     (auto simp add: loadTrending_def loadTrending_try_def Let_def split: option.split)

lemma loadTrending_rejected:
  "loadTrending f mounted (Rejected e) er rr st =
     Return (st\<lparr>trendingEvents := (if mounted then [] else trendingEvents st),
               loadingTrending := \<not> mounted,
               console_lines := console_lines st @ [ConsoleLogLine, ConsoleErrorLine]\<rparr>)"
  by (simp add: loadTrending_def loadTrending_try_def Let_def setTrendingEvents_def
      console_line_def)

lemma loadTrending_rows:
  "loadTrending f mounted (Resolved (Some d) None) er rr st =
     Return (st\<lparr>trendingEvents :=
                 (if mounted then map (normalizeTrending f) d else trendingEvents st),
               loadingTrending := \<not> mounted,
               console_lines := console_lines st @ [ConsoleLogLine, ConsoleLogLine]\<rparr>)"
  by (simp add: loadTrending_def loadTrending_try_def Let_def setTrendingEvents_def
      console_line_def)

lemma loadTrending_fallback:
  "loadTrending f mounted (Resolved vd (Some err)) (Resolved ed eerr) (Resolved rd rerr) st =
     Return (st\<lparr>trendingEvents :=
                 (if mounted
                  then trendingFallback f (case ed of None \<Rightarrow> [] | Some d \<Rightarrow> d)
                         (case rd of None \<Rightarrow> [] | Some d \<Rightarrow> d)
                  else trendingEvents st),
               loadingTrending := \<not> mounted,
               console_lines := console_lines st @ [ConsoleLogLine, ConsoleWarnLine]\<rparr>)"
  by (simp add: loadTrending_def loadTrending_try_def Let_def setTrendingEvents_def
      console_line_def promise_all_def)

lemma loadTrending_fallback_no_data:
  "loadTrending f mounted (Resolved None verr) (Resolved ed eerr) (Resolved rd rerr) st =
     Return (st\<lparr>trendingEvents :=
                 (if mounted
                  then trendingFallback f (case ed of None \<Rightarrow> [] | Some d \<Rightarrow> d)
                         (case rd of None \<Rightarrow> [] | Some d \<Rightarrow> d)
                  else trendingEvents st),
               loadingTrending := \<not> mounted,
               console_lines := console_lines st @ [ConsoleLogLine, ConsoleWarnLine]\<rparr>)"
  by (simp add: loadTrending_def loadTrending_try_def Let_def setTrendingEvents_def
      console_line_def promise_all_def)

lemma loadTrending_events_rejected:
  "loadTrending f mounted (Resolved vd (Some err)) (Rejected e) rr st =
     Return (st\<lparr>trendingEvents := (if mounted then [] else trendingEvents st),
               loadingTrending := \<not> mounted,
               console_lines := console_lines st
                  @ [ConsoleLogLine, ConsoleWarnLine, ConsoleErrorLine]\<rparr>)"
  by (simp add: loadTrending_def loadTrending_try_def Let_def setTrendingEvents_def
      console_line_def promise_all_def)

lemma loadTrending_regs_rejected:
  "loadTrending f mounted (Resolved vd (Some err)) er (Rejected e) st =
     Return (st\<lparr>trendingEvents := (if mounted then [] else trendingEvents st),
               loadingTrending := \<not> mounted,
               console_lines := console_lines st
                  @ [ConsoleLogLine, ConsoleWarnLine, ConsoleErrorLine]\<rparr>)"
  by (cases er)
     (simp_all add: loadTrending_def loadTrending_try_def Let_def setTrendingEvents_def
      console_line_def promise_all_def)

lemma trendingFallback_no_events: "trendingFallback f [] regs = []"
  by (simp add: trendingFallback_def array_sort_def)

text \<open>
  Claim C6, as the code has it. None of the three background fetches throws: whatever the
  backend answers, \<open>fetchEvents\<close>, \<open>loadUpcoming\<close> and \<open>loadTrending\<close> complete normally.
  The state each one leaves is given in full. When its query throws, \<open>fetchEvents\<close> writes
  a console error and sets the event list to the empty list; on an error answer it writes
  a console warning and sets the empty list. \<open>loadUpcoming\<close> and \<open>loadTrending\<close> write the
  same lines (after the line that announces the load) and set their list to the empty
  list while the screen is mounted; once it has been left they set nothing. In the
  trending fallback (the view answered with an error, or with no data) the only warning
  written is the one for the view: an error answer of a sub-fetch is not read and not
  logged, its missing data counts as the empty collection, so an error answer of the
  events fetch gives the ranking of no events, which is empty, and an error answer of the
  registrations fetch gives the ranking of the fetched events with no registrations. A
  sub-fetch that throws gives no ranking: a console error is written and the list is set
  to the empty list.
\<close>

theorem background_fetch_errors_degrade:
  "(\<exists>s. fetchEvents toLowerCase tz now fs opts resp st = Return s)
   \<and> fetchEvents toLowerCase tz now fs opts (Rejected e) st =
       Return (st\<lparr>events := [],
                 loading := (if bypass opts then loading st else False),
                 trace := trace st @ (if bypass opts then [] else [SetLoading True])
                    @ [Await (fetchEvents_query tz now fs), ConsoleError, SetEvents []]
                    @ (if bypass opts then [] else [SetLoading False])\<rparr>)
   \<and> fetchEvents toLowerCase tz now fs opts (Resolved d (Some err)) st =
       Return (st\<lparr>events := [],
                 loading := (if bypass opts then loading st else False),
                 trace := trace st @ (if bypass opts then [] else [SetLoading True])
                    @ [Await (fetchEvents_query tz now fs), ConsoleWarn, SetEvents []]
                    @ (if bypass opts then [] else [SetLoading False])\<rparr>)
   \<and> (\<exists>s. loadUpcoming f mounted uresp hs = Return s)
   \<and> loadUpcoming f mounted (Rejected e) hs =
       Return (hs\<lparr>upcomingEvents := (if mounted then [] else upcomingEvents hs),
                 loadingUpcoming := \<not> mounted,
                 console_lines := console_lines hs @ [ConsoleLogLine, ConsoleErrorLine]\<rparr>)
   \<and> loadUpcoming f mounted (Resolved ud (Some err)) hs =
       Return (hs\<lparr>upcomingEvents := (if mounted then [] else upcomingEvents hs),
                 loadingUpcoming := \<not> mounted,
                 console_lines := console_lines hs @ [ConsoleLogLine, ConsoleWarnLine]\<rparr>)
   \<and> loadUpcoming f mounted (Resolved ud None) hs =
       Return (hs\<lparr>upcomingEvents :=
                   (if mounted then map (normalizeUpcoming f) (case ud of None \<Rightarrow> [] | Some x \<Rightarrow> x)
                    else upcomingEvents hs),
                 loadingUpcoming := \<not> mounted,
                 console_lines := console_lines hs @ [ConsoleLogLine, ConsoleLogLine]\<rparr>)
   \<and> (\<exists>s. loadTrending f mounted vresp eresp rresp hs = Return s)
   \<and> loadTrending f mounted (Rejected e) eresp rresp hs =
       Return (hs\<lparr>trendingEvents := (if mounted then [] else trendingEvents hs),
                 loadingTrending := \<not> mounted,
                 console_lines := console_lines hs @ [ConsoleLogLine, ConsoleErrorLine]\<rparr>)
   \<and> loadTrending f mounted (Resolved (Some vrows) None) eresp rresp hs =
       Return (hs\<lparr>trendingEvents :=
                   (if mounted then map (normalizeTrending f) vrows else trendingEvents hs),
                 loadingTrending := \<not> mounted,
                 console_lines := console_lines hs @ [ConsoleLogLine, ConsoleLogLine]\<rparr>)
   \<and> loadTrending f mounted (Resolved vd (Some err)) (Resolved ed eerr) (Resolved rd rerr) hs =
       Return (hs\<lparr>trendingEvents :=
                   (if mounted
                    then trendingFallback f (case ed of None \<Rightarrow> [] | Some x \<Rightarrow> x)
                           (case rd of None \<Rightarrow> [] | Some x \<Rightarrow> x)
                    else trendingEvents hs),
                 loadingTrending := \<not> mounted,
                 console_lines := console_lines hs @ [ConsoleLogLine, ConsoleWarnLine]\<rparr>)
   \<and> loadTrending f mounted (Resolved None verr) (Resolved ed eerr) (Resolved rd rerr) hs =
       Return (hs\<lparr>trendingEvents :=
                   (if mounted
                    then trendingFallback f (case ed of None \<Rightarrow> [] | Some x \<Rightarrow> x)
                           (case rd of None \<Rightarrow> [] | Some x \<Rightarrow> x)
                    else trendingEvents hs),
                 loadingTrending := \<not> mounted,
                 console_lines := console_lines hs @ [ConsoleLogLine, ConsoleWarnLine]\<rparr>)
   \<and> trendingFallback f [] regs = []
   \<and> loadTrending f mounted (Resolved vd (Some err)) (Rejected e) rresp hs =
       Return (hs\<lparr>trendingEvents := (if mounted then [] else trendingEvents hs),
                 loadingTrending := \<not> mounted,
                 console_lines := console_lines hs
                    @ [ConsoleLogLine, ConsoleWarnLine, ConsoleErrorLine]\<rparr>)
   \<and> loadTrending f mounted (Resolved vd (Some err)) eresp (Rejected e) hs =
       Return (hs\<lparr>trendingEvents := (if mounted then [] else trendingEvents hs),
                 loadingTrending := \<not> mounted,
                 console_lines := console_lines hs
                    @ [ConsoleLogLine, ConsoleWarnLine, ConsoleErrorLine]\<rparr>)"
  using fetchEvents_returns[of toLowerCase tz now fs opts resp st]
    fetchEvents_rejected[of toLowerCase tz now fs opts e st]
    fetchEvents_error[of toLowerCase tz now fs opts d err st]
    loadUpcoming_returns[of f mounted uresp hs]
    loadUpcoming_rejected[of f mounted e hs]
    loadUpcoming_error[of f mounted ud err hs]
    loadUpcoming_rows[of f mounted ud hs]
    loadTrending_returns[of f mounted vresp eresp rresp hs]
    loadTrending_rejected[of f mounted e eresp rresp hs]
    loadTrending_rows[of f mounted vrows eresp rresp hs]
    loadTrending_fallback[of f mounted vd err ed eerr rd rerr hs]
    loadTrending_fallback_no_data[of f mounted verr ed eerr rd rerr hs]
    trendingFallback_no_events[of f regs]
    loadTrending_events_rejected[of f mounted vd err e rresp hs]
    loadTrending_regs_rejected[of f mounted vd err eresp e hs]
  by (intro conjI)

text \<open>
  The claim as stated fails in two places. Once the screen has been left, an upcoming
  load that is rejected leaves the list as it was, here with one item. And in the
  trending fallback a registrations fetch that throws gives the empty list although an
  event was fetched, where counting no registrations would have ranked that event with
  the count 0.
\<close>

theorem unmounted_load_counterexample:
  "upcomingEvents (state_of (loadUpcoming id False (Rejected ''network'')
      \<lparr>upcomingEvents = [event_item ''e1''], trendingEvents = [], loadingUpcoming = False,
       loadingTrending = False, console_lines = []\<rparr>))
   = [event_item ''e1'']
   \<and> trendingEvents (state_of (loadTrending id True (Resolved None (Some ''no view''))
        (Resolved (Some [event_item ''e1'']) None) (Rejected ''network'')
        \<lparr>upcomingEvents = [], trendingEvents = [event_item ''e0''], loadingUpcoming = False,
         loadingTrending = False, console_lines = []\<rparr>))
     = []
   \<and> trendingFallback id [event_item ''e1''] []
     = [(event_item ''e1'')\<lparr>ei_registration_count := Some (Num 0)\<rparr>]"
  by (simp add: loadUpcoming_def loadUpcoming_try_def loadTrending_def loadTrending_try_def
      Let_def setUpcomingEvents_def setTrendingEvents_def console_line_def promise_all_def
      trendingFallback_def array_sort_def enrich_def count_registrations_def get_property_def
      object_prototype_keys_def event_item_def derived_time_def first_category_def)

section \<open>The trending fallback\<close>

lemma get_property_plain:
  "k \<notin> set object_prototype_keys \<Longrightarrow> get_property m k = m k"
  by (simp add: get_property_def split: option.split)

lemma fold_count:
  assumes "k \<noteq> ''''" and "k \<notin> set object_prototype_keys" and "m k \<noteq> Some NotNum"
  shows "or_zero (fold count_registration regs m k)
          = Num ((case or_zero (m k) of Num c \<Rightarrow> c | NotNum \<Rightarrow> 0) + registrations_for k regs)
       \<and> fold count_registration regs m k \<noteq> Some NotNum"
  using assms(3)
proof (induction regs arbitrary: m)
  case Nil
  then show ?case
    by (cases "m k" rule: or_zero.cases) (simp_all add: registrations_for_def)
next
  case (Cons r regs)
  let ?m = "count_registration r m"
  have step: "?m k \<noteq> Some NotNum
      \<and> (case or_zero (?m k) of Num c \<Rightarrow> c | NotNum \<Rightarrow> 0) + registrations_for k regs
        = (case or_zero (m k) of Num c \<Rightarrow> c | NotNum \<Rightarrow> 0) + registrations_for k (r # regs)"
    using Cons.prems assms(1,2)
    by (cases "m k" rule: or_zero.cases)
       (auto simp add: count_registration_def registrations_for_def get_property_plain
          split: option.splits)
  then have "?m k \<noteq> Some NotNum" by simp
  with Cons.IH[of ?m] step show ?case by simp
qed

lemma counts_lookup:
  assumes "server_id k"
  shows "or_zero (get_property (count_registrations regs) k) = Num (registrations_for k regs)"
proof -
  from assms have k: "k \<noteq> ''''" "k \<notin> set object_prototype_keys"
    by (simp_all add: server_id_def)
  have "or_zero (fold count_registration regs Map.empty k)
          = Num ((case or_zero (Map.empty k) of Num c \<Rightarrow> c | NotNum \<Rightarrow> 0)
                 + registrations_for k regs)"
    using fold_count[OF k, of Map.empty regs] by simp
  then show ?thesis
    by (simp add: count_registrations_def get_property_plain[OF k(2)])
qed

lemma enrich_count:
  assumes "server_id (ei_id ev)"
  shows "enrich f (count_registrations regs) ev =
     (enrich f Map.empty ev)\<lparr>ei_registration_count := Some (Num (registrations_for (ei_id ev) regs))\<rparr>"
  by (simp add: enrich_def counts_lookup[OF assms])

lemma enriched_joined:
  assumes "list_all (\<lambda>ev. server_id (ei_id ev)) evs"
  shows "map (enrich f (count_registrations regs)) evs = joined f evs regs"
  unfolding joined_def
  using assms by (intro map_cong) (simp_all add: enrich_count list_all_iff)

lemma insert_sorted_numbers:
  assumes "\<exists>c. ei_registration_count x = Some (Num c)"
    and "list_all (\<lambda>y. \<exists>c. ei_registration_count y = Some (Num c)) ys"
  shows "insert_sorted comparator x ys = insort_key (\<lambda>x. - count_of x) x ys"
  using assms
  by (induction ys) (auto simp add: comparator_def count_of_def)

lemma insort_key_numbers:
  assumes "\<exists>c. ei_registration_count x = Some (Num c)"
    and "list_all (\<lambda>y. \<exists>c. ei_registration_count y = Some (Num c)) ys"
  shows "list_all (\<lambda>y. \<exists>c. ei_registration_count y = Some (Num c))
           (insort_key (\<lambda>x. - count_of x) x ys)"
  using assms by (simp add: list_all_iff set_insort_key)

lemma array_sort_numbers:
  assumes "list_all (\<lambda>y. \<exists>c. ei_registration_count y = Some (Num c)) xs"
  shows "foldr (insert_sorted comparator) xs [] = sort_key (\<lambda>x. - count_of x) xs
       \<and> list_all (\<lambda>y. \<exists>c. ei_registration_count y = Some (Num c))
           (sort_key (\<lambda>x. - count_of x) xs)"
  using assms
proof (induction xs)
  case Nil
  then show ?case by simp
next
  case (Cons x xs)
  then have x: "\<exists>c. ei_registration_count x = Some (Num c)"
    and xs: "list_all (\<lambda>y. \<exists>c. ei_registration_count y = Some (Num c)) xs"
    by simp_all
  from Cons.IH[OF xs]
  have ih: "foldr (insert_sorted comparator) xs [] = sort_key (\<lambda>x. - count_of x) xs"
    and num: "list_all (\<lambda>y. \<exists>c. ei_registration_count y = Some (Num c))
           (sort_key (\<lambda>x. - count_of x) xs)"
    by simp_all
  show ?case
    using insert_sorted_numbers[OF x num] insort_key_numbers[OF x num]
    by (simp add: ih sort_key_def)
qed

lemma joined_numbers:
  "list_all (\<lambda>y. \<exists>c. ei_registration_count y = Some (Num c)) (joined f evs regs)"
  by (simp add: joined_def list_all_iff)

lemma count_ge_eq: "count_ge = (\<lambda>a b. - count_of a \<le> - count_of b)"
  by (intro ext) (simp add: count_ge_def)

lemma trendingFallback_joined:
  assumes "list_all (\<lambda>ev. server_id (ei_id ev)) evs"
  shows "trendingFallback f evs regs = take 8 (sort_key (\<lambda>x. - count_of x) (joined f evs regs))"
  using array_sort_numbers[OF joined_numbers[of f evs regs]]
  by (simp add: trendingFallback_def array_sort_def enriched_joined[OF assms])

lemma trendingFallback_top:
  assumes "list_all (\<lambda>ev. server_id (ei_id ev)) evs"
  shows "\<exists>rest. mset (trendingFallback f evs regs @ rest) = mset (joined f evs regs)
     \<and> sorted_wrt count_ge (trendingFallback f evs regs @ rest)"
proof -
  let ?s = "sort_key (\<lambda>x. - count_of x) (joined f evs regs)"
  have "sorted (map (\<lambda>x. - count_of x) ?s)" by (rule sorted_sort_key)
  then have s: "sorted_wrt count_ge ?s"
    unfolding count_ge_eq by (simp only: sorted_map)
  have "trendingFallback f evs regs @ drop 8 ?s = ?s"
    by (simp add: trendingFallback_joined[OF assms])
  then have "mset (trendingFallback f evs regs @ drop 8 ?s) = mset (joined f evs regs)
      \<and> sorted_wrt count_ge (trendingFallback f evs regs @ drop 8 ?s)"
    using s by simp
  then show ?thesis by (rule exI)
qed

lemma trendingFallback_length:
  assumes "list_all (\<lambda>ev. server_id (ei_id ev)) evs"
  shows "length (trendingFallback f evs regs) = min 8 (length evs)"
  by (simp add: trendingFallback_joined[OF assms] joined_def)

lemma joined_ids: "map ei_id (joined f evs regs) = map ei_id evs"
  by (simp add: joined_def enrich_def)

lemma joined_counts:
  "map ei_registration_count (joined f evs regs)
     = map (\<lambda>ev. Some (Num (registrations_for (ei_id ev) regs))) evs"
  by (simp add: joined_def)

lemma registrations_for_named:
  assumes "k \<in> set (map ei_id evs)"
  shows "registrations_for k (filter (names_event evs) regs) = registrations_for k regs"
proof -
  have "filter (\<lambda>r. case r of None \<Rightarrow> False | Some reg \<Rightarrow> event_id reg = Some k)
          (filter (names_event evs) regs)
      = filter (\<lambda>r. case r of None \<Rightarrow> False | Some reg \<Rightarrow> event_id reg = Some k) regs"
    using assms by (induction regs) (auto simp add: names_event_def split: option.splits)
  then show ?thesis by (simp add: registrations_for_def)
qed

lemma joined_named: "joined f evs (filter (names_event evs) regs) = joined f evs regs"
  unfolding joined_def
  by (rule map_cong) (simp_all add: registrations_for_named)

lemma trendingFallback_named:
  assumes "list_all (\<lambda>ev. server_id (ei_id ev)) evs"
  shows "trendingFallback f evs (filter (names_event evs) regs) = trendingFallback f evs regs"
  by (simp add: trendingFallback_joined[OF assms] joined_named)

lemma trending_example:
  "map (\<lambda>x. (ei_id x, ei_registration_count x))
     (trendingFallback f [event_item ''a'', event_item ''b'']
        [registration ''a'', registration ''a'', registration ''c''])
   = [(''a'', Some (Num 2)), (''b'', Some (Num 0))]"
  by (simp add: trendingFallback_def array_sort_def count_registrations_def
      count_registration_def enrich_def event_item_def registration_def comparator_def
      get_property_def object_prototype_keys_def)

text \<open>
  Outside the ids the server assigns the aggregation reads the counts object differently.
  An event whose id is the name of a property that every object inherits, here
  \<open>constructor\<close>, gets that property and not a number for its count, and the comparator
  gives no order against it: of the events a, \<open>constructor\<close>, b with one registration for
  b, the result keeps b, with the count 1, behind a, with the count 0. An event whose id
  is the empty string gets the count 0 whatever the registrations.
\<close>

lemma inherited_property_example:
  "map (\<lambda>x. (ei_id x, ei_registration_count x))
     (trendingFallback f [event_item ''a'', event_item ''constructor'', event_item ''b'']
        [registration ''b''])
   = [(''a'', Some (Num 0)), (''constructor'', Some NotNum), (''b'', Some (Num 1))]
   \<and> map ei_registration_count (trendingFallback f [event_item ''''] [registration ''''])
     = [Some (Num 0)]"
  by (simp add: trendingFallback_def array_sort_def count_registrations_def
      count_registration_def enrich_def event_item_def registration_def comparator_def
      get_property_def object_prototype_keys_def)

text \<open>
  Claim C3. Take any list of fetched events whose ids are ids as the server assigns them
  (not empty, and not the name of a property of \<open>Object.prototype\<close>), and any list of
  registration records. The result of the fallback aggregation is the first 8 of the
  fetched events, each with the number of registration records whose \<open>event_id\<close> is its
  id as its count (0 when there are none), sorted by descending count, events of equal
  count staying in the order fetched: it is the first 8 (all, when there are fewer) of a
  rearrangement of the joined events that is in descending order of count. Registrations
  that name no fetched event do not change the result. For events a, b and registrations
  a, a, c the result is a with 2, then b with 0.
\<close>

theorem trendingFallback_ranking:
  assumes "list_all (\<lambda>ev. server_id (ei_id ev)) evs"
  shows "trendingFallback f evs regs
       = take 8 (sort_key (\<lambda>x. - count_of x) (joined f evs regs))
   \<and> (\<exists>rest. mset (trendingFallback f evs regs @ rest) = mset (joined f evs regs)
       \<and> sorted_wrt count_ge (trendingFallback f evs regs @ rest))
   \<and> length (trendingFallback f evs regs) = min 8 (length evs)
   \<and> map ei_id (joined f evs regs) = map ei_id evs
   \<and> map ei_registration_count (joined f evs regs)
       = map (\<lambda>ev. Some (Num (registrations_for (ei_id ev) regs))) evs
   \<and> trendingFallback f evs (filter (names_event evs) regs) = trendingFallback f evs regs
   \<and> map (\<lambda>x. (ei_id x, ei_registration_count x))
         (trendingFallback f [event_item ''a'', event_item ''b'']
            [registration ''a'', registration ''a'', registration ''c''])
       = [(''a'', Some (Num 2)), (''b'', Some (Num 0))]"
  using trendingFallback_joined[OF assms, of f regs] trendingFallback_top[OF assms, of f regs]
    trendingFallback_length[OF assms, of f regs]
    joined_ids[of f evs regs] joined_counts[of f evs regs]
    trendingFallback_named[OF assms, of f regs] trending_example[of f]
  by (intro conjI)

theorem trendingFallback_ranking_witness:
  "list_all (\<lambda>ev. server_id (ei_id ev)) [event_item ''a'', event_item ''b'']
   \<and> length (trendingFallback id [event_item ''a'', event_item ''b'']
        [registration ''a'', registration ''a'', registration ''c'']) = 2
   \<and> trendingFallback id [event_item ''a'', event_item ''b'']
        (filter (names_event [event_item ''a'', event_item ''b''])
           [registration ''a'', registration ''a'', registration ''c''])
     = trendingFallback id [event_item ''a'', event_item ''b'']
        [registration ''a'', registration ''a'', registration ''c'']"
proof -
  have ids: "list_all (\<lambda>ev. server_id (ei_id ev)) [event_item ''a'', event_item ''b'']"
    by (simp add: server_id_def object_prototype_keys_def event_item_def)
  let ?evs = "[event_item ''a'', event_item ''b'']"
  let ?regs = "[registration ''a'', registration ''a'', registration ''c'']"
  have "length (trendingFallback id ?evs ?regs) = min 8 (length ?evs)
      \<and> trendingFallback id ?evs (filter (names_event ?evs) ?regs)
        = trendingFallback id ?evs ?regs"
    using trendingFallback_ranking[OF ids, of id ?regs] by blast
  with ids show ?thesis by simp
qed

section \<open>The discussion list of an event\<close>

lemma run_discussions_query:
  "run_query reddit_columns orf (fetchDiscussions_query safeId) table =
     take 200 (sort_key (order_key reddit_columns ''created_utc'' False)
       (filter (\<lambda>r. rr_event_id r = Some safeId) table))"
  by (simp add: run_query_def fetchDiscussions_query_def reddit_columns_def)

lemma order_key_created_utc:
  "order_key reddit_columns ''created_utc'' False a \<le> order_key reddit_columns ''created_utc'' False b
     \<Longrightarrow> created_utc_ge a b"
  by (auto simp add: order_key_def reddit_columns_def created_utc_ge_def split: option.splits)

lemma discussions_sorted:
  "sorted_wrt created_utc_ge (run_query reddit_columns orf (fetchDiscussions_query safeId) table)"
proof -
  let ?k = "order_key reddit_columns ''created_utc'' False :: 'a RedditRow_scheme \<Rightarrow> int \<times> int"
  let ?s = "sort_key ?k (filter (\<lambda>r. rr_event_id r = Some safeId) table)"
  have "sorted (map ?k ?s)" by (rule sorted_sort_key)
  then have "sorted_wrt (\<lambda>a b. ?k a \<le> ?k b) ?s" by (simp only: sorted_map)
  then have "sorted_wrt created_utc_ge ?s"
    using sorted_wrt_mono_rel[of ?s "\<lambda>a b. ?k a \<le> ?k b" created_utc_ge]
      order_key_created_utc by blast
  then have "sorted_wrt created_utc_ge (take 200 ?s)"
    by (rule sorted_wrt_take)
  then show ?thesis by (simp only: run_discussions_query)
qed

lemma discussions_of_event:
  "list_all (\<lambda>r. rr_event_id r = Some safeId)
     (run_query reddit_columns orf (fetchDiscussions_query safeId) table)"
proof -
  have "set (take 200 (sort_key (order_key reddit_columns ''created_utc'' False)
       (filter (\<lambda>r. rr_event_id r = Some safeId) table)))
     \<subseteq> set (filter (\<lambda>r. rr_event_id r = Some safeId) table)"
    using set_take_subset[of 200 "sort_key (order_key reddit_columns ''created_utc'' False)
       (filter (\<lambda>r. rr_event_id r = Some safeId) table)"] by simp
  then show ?thesis
    unfolding run_discussions_query list_all_iff by auto
qed

lemma discussions_length:
  "length (run_query reddit_columns orf (fetchDiscussions_query safeId) table) \<le> 200"
  by (simp add: run_discussions_query)

lemma fetchDiscussions_ok:
  "fetchDiscussions True (Resolved (Some rows) None) st =
     Return (st\<lparr>discussions := Some rows, loadingDisc := False\<rparr>)"
  by (simp add: fetchDiscussions_def)

lemma on_insert_prepends:
  "on_insert new (st\<lparr>discussions := Some prev\<rparr>) = Return (st\<lparr>discussions := Some (new # prev)\<rparr>)"
  by (simp add: on_insert_def)

lemma deliver_cases:
  "deliver safeId (INSERT row) st =
     (if rr_event_id row = Some safeId then on_insert row st else Return st)
   \<and> deliver safeId (UPDATE row) st = Return st
   \<and> deliver safeId (DELETE row) st = Return st"
  by (simp add: deliver_def)

text \<open>
  Claim C9. The query of \<open>fetchDiscussions\<close> names the event, the descending order by
  \<open>created_utc\<close> and the limit 200: what the backend returns for it is the first 200 of
  the event's rows in that order, so at most 200 rows, all of that event, in descending
  order of \<open>created_utc\<close>; on success the list is set to the returned rows. An \<open>INSERT\<close>
  notification for a row of the event calls the handler, which puts the new row in front
  of the current list and leaves the rest as it is: the row is placed first whatever its
  time, and also when the list already begins with it. Other notifications change
  nothing.
\<close>

theorem discussion_sync:
  "fetchDiscussions_query safeId =
     [From ''reddit_comments'', Select ''*'', Eq ''event_id'' safeId,
      Order ''created_utc'' False, Limit 200]
   \<and> run_query reddit_columns orf (fetchDiscussions_query safeId) table =
       take 200 (sort_key (order_key reddit_columns ''created_utc'' False)
         (filter (\<lambda>r. rr_event_id r = Some safeId) table))
   \<and> length (run_query reddit_columns orf (fetchDiscussions_query safeId) table) \<le> 200
   \<and> list_all (\<lambda>r. rr_event_id r = Some safeId)
         (run_query reddit_columns orf (fetchDiscussions_query safeId) table)
   \<and> sorted_wrt created_utc_ge
         (run_query reddit_columns orf (fetchDiscussions_query safeId) table)
   \<and> fetchDiscussions True (Resolved (Some rows) None) st =
       Return (st\<lparr>discussions := Some rows, loadingDisc := False\<rparr>)
   \<and> on_insert new (st\<lparr>discussions := Some prev\<rparr>) =
       Return (st\<lparr>discussions := Some (new # prev)\<rparr>)
   \<and> on_insert new (st\<lparr>discussions := Some (new # prev)\<rparr>) =
       Return (st\<lparr>discussions := Some (new # new # prev)\<rparr>)
   \<and> deliver safeId (INSERT row) st =
       (if rr_event_id row = Some safeId then on_insert row st else Return st)
   \<and> deliver safeId (UPDATE row) st = Return st
   \<and> deliver safeId (DELETE row) st = Return st"
  by (intro conjI run_discussions_query discussions_length discussions_of_event
      discussions_sorted fetchDiscussions_ok on_insert_prepends)
    (simp_all add: fetchDiscussions_query_def deliver_def)

section \<open>The debounced effect\<close>

lemma change_from_idle:
  assumes "timers st = []" and "searchText fs \<noteq> []"
  shows "debouncing (filter_change now fs st) (now + 400) fs
       \<and> fetch_calls (filter_change now fs st) = fetch_calls st"
  using assms
  by (simp add: filter_change_def fire_due_def effect_cleanup_def effect_body_def
      clearTimeout_def debouncing_def Let_def split: option.split)

lemma change_while_debouncing:
  assumes "debouncing st due fs0" and "now < due" and "searchText fs \<noteq> []"
  shows "debouncing (filter_change now fs st) (now + 400) fs
       \<and> fetch_calls (filter_change now fs st) = fetch_calls st"
  using assms
  by (simp add: filter_change_def fire_due_def effect_cleanup_def effect_body_def
      clearTimeout_def debouncing_def Let_def split: option.split)

lemma fire_while_debouncing:
  assumes "debouncing st due fs"
  shows "fetch_calls (fire_due t st) = (if due \<le> t then fetch_calls st @ [(due, fs)] else fetch_calls st)
       \<and> timers (fire_due t st) = (if due \<le> t then [] else timers st)"
  using assms by (simp add: fire_due_def debouncing_def)

lemma immediate_from_idle:
  assumes "timers st = []" and "searchText fs = []"
  shows "fetch_calls (filter_change now fs st) = fetch_calls st @ [(now, fs)]
       \<and> timers (filter_change now fs st) = []"
  using assms
  by (simp add: filter_change_def fire_due_def effect_cleanup_def effect_body_def
      clearTimeout_def Let_def split: option.split)

lemma immediate_while_debouncing:
  assumes "debouncing st due fs0" and "now < due" and "searchText fs = []"
  shows "fetch_calls (filter_change now fs st) = fetch_calls st @ [(now, fs)]
       \<and> timers (filter_change now fs st) = []"
  using assms
  by (simp add: filter_change_def fire_due_def effect_cleanup_def effect_body_def
      clearTimeout_def debouncing_def Let_def split: option.split)

text \<open>
  Claim C2, as the code has it. From a state with no pending timer, three changes of the
  filter state, each to a state with a non-empty search text and each less than 400 ms
  after the one before, issue no fetch while they arrive and exactly one afterwards: it
  is issued 400 ms after the last change, with the last filter state, and then nothing is
  pending. What decides between fetching at once and debouncing is the search text of the
  new filter state, not which part of it changed: a change to a state with an empty
  search text fetches at once and leaves nothing pending; a change to a state with a
  non-empty search text fetches nothing yet and leaves one timer, due 400 ms later.
\<close>

theorem debounced_fetch:
  assumes idle: "timers st = []"
    and typed: "searchText fs1 \<noteq> []" "searchText fs2 \<noteq> []" "searchText fs3 \<noteq> []"
    and gaps: "t1 \<le> t2" "t2 < t1 + 400" "t2 \<le> t3" "t3 < t2 + 400"
  shows "fetch_calls (filter_change t3 fs3 (filter_change t2 fs2 (filter_change t1 fs1 st)))
           = fetch_calls st
       \<and> fetch_calls (fire_due t (filter_change t3 fs3 (filter_change t2 fs2 (filter_change t1 fs1 st))))
           = (if t3 + 400 \<le> t then fetch_calls st @ [(t3 + 400, fs3)] else fetch_calls st)
       \<and> timers (fire_due (t3 + 400) (filter_change t3 fs3 (filter_change t2 fs2 (filter_change t1 fs1 st))))
           = []
       \<and> fetch_calls (filter_change now \<lparr>searchText = [], activeFilter = k\<rparr> st)
           = fetch_calls st @ [(now, \<lparr>searchText = [], activeFilter = k\<rparr>)]
       \<and> timers (filter_change now \<lparr>searchText = [], activeFilter = k\<rparr> st) = []
       \<and> fetch_calls (filter_change now fs1 st) = fetch_calls st
       \<and> timers (filter_change now fs1 st) = [(next_timer st, now + 400, fs1)]"
proof -
  let ?s1 = "filter_change t1 fs1 st"
  let ?s2 = "filter_change t2 fs2 ?s1"
  let ?s3 = "filter_change t3 fs3 ?s2"
  have 1: "debouncing ?s1 (t1 + 400) fs1" "fetch_calls ?s1 = fetch_calls st"
    using change_from_idle[OF idle typed(1), of t1] by simp_all
  have 2: "debouncing ?s2 (t2 + 400) fs2" "fetch_calls ?s2 = fetch_calls st"
    using change_while_debouncing[OF 1(1) gaps(2) typed(2)] 1(2) by simp_all
  have 3: "debouncing ?s3 (t3 + 400) fs3" "fetch_calls ?s3 = fetch_calls st"
    using change_while_debouncing[OF 2(1) gaps(4) typed(3)] 2(2) by simp_all
  have 4: "fetch_calls (fire_due t ?s3)
      = (if t3 + 400 \<le> t then fetch_calls st @ [(t3 + 400, fs3)] else fetch_calls st)"
    using fire_while_debouncing[OF 3(1), of t] 3(2) by simp
  have 5: "timers (fire_due (t3 + 400) ?s3) = []"
    using fire_while_debouncing[OF 3(1), of "t3 + 400"] by simp
  have 6: "fetch_calls (filter_change now \<lparr>searchText = [], activeFilter = k\<rparr> st)
           = fetch_calls st @ [(now, \<lparr>searchText = [], activeFilter = k\<rparr>)]
       \<and> timers (filter_change now \<lparr>searchText = [], activeFilter = k\<rparr> st) = []"
    using immediate_from_idle[OF idle, of "\<lparr>searchText = [], activeFilter = k\<rparr>" now] by simp
  have 7: "fetch_calls (filter_change now fs1 st) = fetch_calls st
       \<and> timers (filter_change now fs1 st) = [(next_timer st, now + 400, fs1)]"
    using idle typed(1)
    by (simp add: filter_change_def fire_due_def effect_cleanup_def effect_body_def
      clearTimeout_def Let_def split: option.split)
  from 3(2) 4 5 6 7 show ?thesis by simp
qed

theorem debounced_fetch_witness:
  "fetch_calls
     (fire_due 650
       (filter_change 250 \<lparr>searchText = units ''ja'', activeFilter = Tech\<rparr>
         (filter_change 100 \<lparr>searchText = units ''ja'', activeFilter = All_key\<rparr>
           (filter_change 0 \<lparr>searchText = units ''j'', activeFilter = All_key\<rparr> mount_state))))
   = [(650, \<lparr>searchText = units ''ja'', activeFilter = Tech\<rparr>)]
   \<and> fetch_calls
     (fire_due 649
       (filter_change 250 \<lparr>searchText = units ''ja'', activeFilter = Tech\<rparr>
         (filter_change 100 \<lparr>searchText = units ''ja'', activeFilter = All_key\<rparr>
           (filter_change 0 \<lparr>searchText = units ''j'', activeFilter = All_key\<rparr> mount_state))))
   = []"
proof -
  have idle: "timers mount_state = []" by (simp add: mount_state_def)
  have typed: "searchText \<lparr>searchText = units ''j'', activeFilter = All_key\<rparr> \<noteq> []"
    "searchText \<lparr>searchText = units ''ja'', activeFilter = All_key\<rparr> \<noteq> []"
    "searchText \<lparr>searchText = units ''ja'', activeFilter = Tech\<rparr> \<noteq> []"
    by (simp_all add: units_def)
  have gaps: "(0::nat) \<le> 100" "(100::nat) < 0 + 400" "(100::nat) \<le> 250" "(250::nat) < 100 + 400"
    by simp_all
  have none: "fetch_calls mount_state = []" by (simp add: mount_state_def)
  show ?thesis
    using debounced_fetch[OF idle typed gaps, of 650 0 Today]
      debounced_fetch[OF idle typed gaps, of 649 0 Today] none
    by simp
qed

text \<open>
  The claim as stated fails when the search text is empty: three changes of the filter
  key, 100 ms apart, issue three fetches. And a change of the filter key alone, with a
  search text present, is debounced: no fetch is issued at once.
\<close>

theorem debounce_counterexample:
  "fetch_calls
     (filter_change 200 \<lparr>searchText = [], activeFilter = Sports\<rparr>
       (filter_change 100 \<lparr>searchText = [], activeFilter = Tomorrow\<rparr>
         (filter_change 0 \<lparr>searchText = [], activeFilter = Today\<rparr> mount_state)))
   = [(0, \<lparr>searchText = [], activeFilter = Today\<rparr>),
      (100, \<lparr>searchText = [], activeFilter = Tomorrow\<rparr>),
      (200, \<lparr>searchText = [], activeFilter = Sports\<rparr>)]
   \<and> fetch_calls (filter_change 0 \<lparr>searchText = units ''jazz'', activeFilter = Today\<rparr> mount_state) = []
   \<and> timers (filter_change 0 \<lparr>searchText = units ''jazz'', activeFilter = Today\<rparr> mount_state)
       = [(1, 400, \<lparr>searchText = units ''jazz'', activeFilter = Today\<rparr>)]"
  by (simp add: filter_change_def fire_due_def effect_cleanup_def effect_body_def
      clearTimeout_def mount_state_def Let_def units_def)

end
